theory Spec2Isabelle
  imports Complex_Main
begin

section \<open>The random source and Python's numeric conversions\<close>

text \<open>
  The simulation in \<^verbatim>\<open>services/external_apis.py\<close> draws from Python's global generator.
  The model threads the generator through every function as the sequence of the values
  the successive calls of \<^verbatim>\<open>random.random()\<close> return: position \<open>0\<close> is the next value,
  and a draw shifts the sequence by one. Python's floats are read as real numbers; where
  a float product is truncated to a whole number, so that its rounding decides the result,
  the product is rounded to double precision first (\<open>fl\<close> below).
\<close>

type_synonym rng = "nat \<Rightarrow> real"

text \<open>\<^verbatim>\<open>random.random()\<close> returns a value of the half-open unit interval.\<close>

definition valid_rng :: "rng \<Rightarrow> bool" where
  "valid_rng g = (\<forall>i. 0 \<le> g i \<and> g i < 1)"

definition random_random :: "rng \<Rightarrow> real \<times> rng" where
  "random_random g = (g 0, \<lambda>i. g (Suc i))"

text \<open>\<^verbatim>\<open>random.uniform(a, b)\<close> is \<^verbatim>\<open>a + (b - a) * self.random()\<close>.\<close>

definition random_uniform :: "real \<Rightarrow> real \<Rightarrow> rng \<Rightarrow> real \<times> rng" where
  "random_uniform a b g = (case random_random g of (u, g') \<Rightarrow> (a + (b - a) * u, g'))"

text \<open>
  \<^verbatim>\<open>random.randint(a, b)\<close> picks one of the \<open>b - a + 1\<close> integers from \<open>a\<close> to \<open>b\<close>;
  the model selects it by the position of one unit draw.
\<close>

definition random_randint :: "int \<Rightarrow> int \<Rightarrow> rng \<Rightarrow> int \<times> rng" where
  "random_randint a b g =
     (case random_random g of (u, g') \<Rightarrow> (a + \<lfloor>u * real_of_int (b - a + 1)\<rfloor>, g'))"

text \<open>\<^verbatim>\<open>random.choice(seq)\<close> on a non-empty sequence, selected the same way.\<close>

definition random_choice :: "'a list \<Rightarrow> rng \<Rightarrow> 'a \<times> rng" where
  "random_choice seq g =
     (case random_random g of (u, g') \<Rightarrow> (seq ! nat \<lfloor>u * real (length seq)\<rfloor>, g'))"

text \<open>Python's \<^verbatim>\<open>int(x)\<close> on a float truncates toward zero.\<close>

definition py_int :: "real \<Rightarrow> int" where
  "py_int x = (if 0 \<le> x then \<lfloor>x\<rfloor> else \<lceil>x\<rceil>)"

text \<open>
  Rounding to IEEE 754 double precision, to nearest with ties to even: the result of a
  float multiplication is the exact product rounded this way. \<open>ulp x\<close> is the spacing of
  the doubles around \<open>x\<close>: 1 when \<open>\<bar>x\<bar>\<close> is from \<open>2 ^ 52\<close> up to \<open>2 ^ 53\<close>, halved for each
  binade below (the 1074 halvings reach the subnormal spacing), and doubled for each
  binade above (the 971 doublings reach the largest binade). Overflow to infinity is
  outside the model.
\<close>

definition round_half_even :: "real \<Rightarrow> int" where
  "round_half_even x =
     (let f = \<lfloor>x\<rfloor>; d = x - real_of_int f
      in if d < 1 / 2 then f else if 1 / 2 < d then f + 1 else if even f then f else f + 1)"

fun ulp_below :: "nat \<Rightarrow> real \<Rightarrow> real" where
  "ulp_below 0 x = 1"
| "ulp_below (Suc n) x = (if x < 2 ^ 52 then ulp_below n (2 * x) / 2 else 1)"

fun ulp_above :: "nat \<Rightarrow> real \<Rightarrow> real" where
  "ulp_above 0 x = 1"
| "ulp_above (Suc n) x = (if 2 ^ 53 \<le> x then 2 * ulp_above n (x / 2) else 1)"

definition ulp :: "real \<Rightarrow> real" where
  "ulp x = (if 2 ^ 53 \<le> \<bar>x\<bar> then ulp_above 971 \<bar>x\<bar> else ulp_below 1074 \<bar>x\<bar>)"

definition fl :: "real \<Rightarrow> real" where
  "fl x = real_of_int (round_half_even (x / ulp x)) * ulp x"

section \<open>The simulated facility state (MockInternalDataProvider)\<close>

text \<open>
  The dictionary stored per facility in \<^verbatim>\<open>self.facility_states\<close>, with the keys of
  \<^verbatim>\<open>_initialize_facility_state\<close>. Equipment status and facility type are the source's
  string literals.
\<close>

record facility_state =
  staffing_level :: int
  productivity_rate :: real
  equipment_status :: string
  delivery_timeliness :: real
  downtime_minutes :: int
  equipment_change_cooldown :: real
  staffing_trend :: real
  productivity_trend :: real

text \<open>
  \<^verbatim>\<open>_initialize_facility_state\<close>: the state it stores under the facility's key. The draws
  are made in the source's order: staffing, productivity, timeliness, equipment status.
\<close>

definition initialize_facility_state :: "string \<Rightarrow> rng \<Rightarrow> facility_state \<times> rng" where
  "initialize_facility_state facility_type g =
     (case (if facility_type = ''hub'' then random_randint 150 250 g
            else random_randint 15 25 g) of (base_staffing, g1) \<Rightarrow>
      case (if facility_type = ''hub'' then random_uniform 0.85 1.05 g1
            else random_uniform 0.88 1.02 g1) of (base_productivity, g2) \<Rightarrow>
      case (if facility_type = ''hub'' then random_uniform 90.0 96.0 g2
            else random_uniform 92.0 98.0 g2) of (base_timeliness, g3) \<Rightarrow>
      case random_choice [''Operational'', ''Operational'', ''Operational'', ''Maintenance''] g3
        of (status, g4) \<Rightarrow>
      (\<lparr>staffing_level = base_staffing,
        productivity_rate = base_productivity,
        equipment_status = status,
        delivery_timeliness = base_timeliness,
        downtime_minutes = 0,
        equipment_change_cooldown = 0,
        staffing_trend = 0,
        productivity_trend = 0\<rparr>, g4))"

text \<open>\<^verbatim>\<open>_update_equipment_status\<close>: the transitions and the cooldown each one sets.\<close>

definition update_equipment_status :: "facility_state \<Rightarrow> real \<Rightarrow> rng \<Rightarrow> facility_state \<times> rng" where
  "update_equipment_status state hours_elapsed g =
     (let current_status = equipment_status state in
      if current_status = ''Operational'' then
        (case random_random g of (u1, g1) \<Rightarrow>
           if u1 < 0.001 * hours_elapsed then
             (case random_random g1 of (u2, g2) \<Rightarrow>
                if u2 < 0.7 then
                  (case random_uniform 4 12 g2 of (c, g3) \<Rightarrow>
                     (state\<lparr>equipment_status := ''Maintenance'',
                             equipment_change_cooldown := c\<rparr>, g3))
                else
                  (case random_uniform 1 6 g2 of (c, g3) \<Rightarrow>
                     (state\<lparr>equipment_status := ''Down'',
                             equipment_change_cooldown := c\<rparr>, g3)))
           else (state, g1))
      else if current_status = ''Maintenance'' then
        (case random_random g of (u1, g1) \<Rightarrow>
           if u1 < 0.15 * hours_elapsed then
             (case random_uniform 24 72 g1 of (c, g2) \<Rightarrow>
                (state\<lparr>equipment_status := ''Operational'',
                        equipment_change_cooldown := c\<rparr>, g2))
           else (state, g1))
      else if current_status = ''Down'' then
        (case random_random g of (u1, g1) \<Rightarrow>
           if u1 < 0.25 * hours_elapsed then
             (case random_random g1 of (u2, g2) \<Rightarrow>
                if u2 < 0.8 then
                  (case random_uniform 12 48 g2 of (c, g3) \<Rightarrow>
                     (state\<lparr>equipment_status := ''Operational'',
                             equipment_change_cooldown := c\<rparr>, g3))
                else
                  (case random_uniform 2 8 g2 of (c, g3) \<Rightarrow>
                     (state\<lparr>equipment_status := ''Maintenance'',
                             equipment_change_cooldown := c\<rparr>, g3)))
           else (state, g1))
      else (state, g))"

text \<open>
  \<^verbatim>\<open>_update_staffing_level\<close>. The local \<^verbatim>\<open>trend\<close> is read before the re-randomisation,
  so the test \<^verbatim>\<open>trend != 0\<close> and the staffing change use the old trend, while the decay
  multiplies the trend the state holds at that point.
\<close>

definition update_staffing_level ::
  "facility_state \<Rightarrow> string \<Rightarrow> real \<Rightarrow> rng \<Rightarrow> facility_state \<times> rng" where
  "update_staffing_level state facility_type hours_elapsed g =
     (let current_staffing = staffing_level state;
          trend = staffing_trend state
      in
      case (if hours_elapsed \<ge> 8 then
              (case random_random g of (u, g1) \<Rightarrow>
                 if u < 0.05 then
                   (if facility_type = ''hub'' then
                      (case random_uniform (- 2) 2 g1 of (trend_change, g2) \<Rightarrow>
                         (state\<lparr>staffing_trend := max (- 5) (min 5 (trend + trend_change))\<rparr>, g2))
                    else
                      (case random_uniform (- 0.5) 0.5 g1 of (trend_change, g2) \<Rightarrow>
                         (state\<lparr>staffing_trend := max (- 2) (min 2 (trend + trend_change))\<rparr>, g2)))
                 else (state, g1))
            else (state, g)) of (state1, g') \<Rightarrow>
      if trend \<noteq> 0 then
        (let staffing_change = trend * hours_elapsed;
             new_staffing = real_of_int current_staffing + staffing_change;
             new_staffing' = (if facility_type = ''hub'' then max 80 (min 350 new_staffing)
                              else max 8 (min 35 new_staffing))
         in (state1\<lparr>staffing_level := py_int new_staffing',
                     staffing_trend := staffing_trend state1 * 0.95\<rparr>, g'))
      else (state1, g'))"

text \<open>
  The target of \<^verbatim>\<open>_update_productivity\<close> (its local \<^verbatim>\<open>target_productivity\<close>): base
  productivity times the equipment multiplier times the staffing multiplier. A status
  outside the table takes the default of \<^verbatim>\<open>dict.get\<close>, 1.0.
\<close>

definition equipment_multiplier :: "string \<Rightarrow> real" where
  "equipment_multiplier status =
     (if status = ''Operational'' then 1.0
      else if status = ''Maintenance'' then 0.7
      else if status = ''Down'' then 0.1
      else if status = ''Reduced Capacity'' then 0.6
      else 1.0)"

definition target_productivity :: "facility_state \<Rightarrow> string \<Rightarrow> real" where
  "target_productivity state facility_type =
     (let optimal_staffing = (if facility_type = ''hub'' then 200 else 20 :: real);
          staffing_ratio = real_of_int (staffing_level state) / optimal_staffing;
          staffing_multiplier =
            (if staffing_ratio < 0.7 then 0.6 + (staffing_ratio * 0.4)
             else if staffing_ratio > 1.3 then 1.0 - ((staffing_ratio - 1.3) * 0.3)
             else 0.9 + (staffing_ratio * 0.1));
          base_productivity = (if facility_type = ''hub'' then 0.95 else 0.92)
      in base_productivity * equipment_multiplier (equipment_status state) * staffing_multiplier)"

definition update_productivity :: "facility_state \<Rightarrow> string \<Rightarrow> real \<Rightarrow> facility_state" where
  "update_productivity state facility_type hours_elapsed =
     (let current_productivity = productivity_rate state;
          change_rate = 0.1 * hours_elapsed;
          productivity_gap = target_productivity state facility_type - current_productivity;
          new_productivity = current_productivity + (productivity_gap * change_rate)
      in state\<lparr>productivity_rate := max 0.1 (min 1.3 new_productivity)\<rparr>)"

text \<open>The target of \<^verbatim>\<open>_update_timeliness\<close> (its local \<^verbatim>\<open>target_timeliness\<close>).\<close>

definition equipment_factor :: "string \<Rightarrow> real" where
  "equipment_factor status =
     (if status = ''Operational'' then 1.0
      else if status = ''Maintenance'' then 0.85
      else if status = ''Down'' then 0.3
      else if status = ''Reduced Capacity'' then 0.75
      else 1.0)"

definition target_timeliness :: "facility_state \<Rightarrow> string \<Rightarrow> real" where
  "target_timeliness state facility_type =
     (let productivity_factor = min 1.0 (productivity_rate state);
          base_timeliness = (if facility_type = ''hub'' then 96.0 else 94.0)
      in base_timeliness * productivity_factor * equipment_factor (equipment_status state))"

definition update_timeliness :: "facility_state \<Rightarrow> string \<Rightarrow> real \<Rightarrow> facility_state" where
  "update_timeliness state facility_type hours_elapsed =
     (let current_timeliness = delivery_timeliness state;
          change_rate = 0.2 * hours_elapsed;
          timeliness_gap = target_timeliness state facility_type - current_timeliness;
          new_timeliness = current_timeliness + (timeliness_gap * change_rate)
      in state\<lparr>delivery_timeliness := max 60.0 (min 99.9 new_timeliness)\<rparr>)"

text \<open>
  \<^verbatim>\<open>_update_downtime\<close>. The minutes are \<^verbatim>\<open>int(hours_elapsed * 60)\<close> and
  \<^verbatim>\<open>int(hours_elapsed * 30)\<close>: the float product, truncated.
\<close>

definition update_downtime :: "facility_state \<Rightarrow> real \<Rightarrow> facility_state" where
  "update_downtime state hours_elapsed =
     (if equipment_status state = ''Down'' then
        state\<lparr>downtime_minutes :=
                 min 480 (downtime_minutes state + py_int (fl (hours_elapsed * 60)))\<rparr>
      else if equipment_status state = ''Operational'' then
        (let reduction = py_int (fl (hours_elapsed * 30))
         in state\<lparr>downtime_minutes := max 0 (downtime_minutes state - reduction)\<rparr>)
      else state)"

text \<open>
  \<^verbatim>\<open>_update_facility_state\<close>, as it acts on the entry
  \<^verbatim>\<open>self.facility_states[facility_id]\<close>: the cooldown is reduced first, and the equipment
  step is gated on the reduced cooldown.
\<close>

definition update_facility_state ::
  "facility_state \<Rightarrow> string \<Rightarrow> real \<Rightarrow> rng \<Rightarrow> facility_state \<times> rng" where
  "update_facility_state state facility_type hours_elapsed g =
     (let state1 = state\<lparr>equipment_change_cooldown :=
                            max 0 (equipment_change_cooldown state - hours_elapsed)\<rparr>
      in
      case (if equipment_change_cooldown state1 \<le> 0
            then update_equipment_status state1 hours_elapsed g
            else (state1, g)) of (state2, g2) \<Rightarrow>
      case update_staffing_level state2 facility_type hours_elapsed g2 of (state3, g3) \<Rightarrow>
      (update_downtime
         (update_timeliness
            (update_productivity state3 facility_type hours_elapsed)
            facility_type hours_elapsed)
         hours_elapsed, g3))"

section \<open>Documented bounds and trajectories\<close>

text \<open>
  The documented bounds of the four bounded fields. Every facility type other than
  \<^verbatim>\<open>"hub"\<close> takes the station branch of the source, hence the station bounds.
\<close>

definition in_bounds :: "string \<Rightarrow> facility_state \<Rightarrow> bool" where
  "in_bounds facility_type state =
     ((if facility_type = ''hub''
       then 80 \<le> staffing_level state \<and> staffing_level state \<le> 350
       else 8 \<le> staffing_level state \<and> staffing_level state \<le> 35) \<and>
      0.1 \<le> productivity_rate state \<and> productivity_rate state \<le> 1.3 \<and>
      60.0 \<le> delivery_timeliness state \<and> delivery_timeliness state \<le> 99.9 \<and>
      0 \<le> downtime_minutes state \<and> downtime_minutes state \<le> 480)"

text \<open>
  The states a facility passes through under successive calls of
  \<^verbatim>\<open>_update_facility_state\<close> with the given elapsed hours: one state per call.
\<close>

fun trajectory :: "facility_state \<Rightarrow> string \<Rightarrow> real list \<Rightarrow> rng \<Rightarrow> facility_state list" where
  "trajectory state facility_type [] g = []"
| "trajectory state facility_type (h # hs) g =
     (case update_facility_state state facility_type h g of
        (state', g') \<Rightarrow> state' # trajectory state' facility_type hs g')"

text \<open>A generator whose every draw is the same value, for concrete runs.\<close>

definition const_rng :: "real \<Rightarrow> rng" where
  "const_rng u = (\<lambda>i. u)"


section \<open>The internal metrics provider\<close>

text \<open>
  The dataclass \<^verbatim>\<open>FacilityMetrics\<close> as \<^verbatim>\<open>get_facility_metrics\<close> builds it. The timestamp
  is kept as the instant it formats, in whole seconds.
\<close>

record facility_metrics =
  fm_facility_id :: int
  fm_staffing_level :: int
  fm_productivity_rate :: real
  fm_equipment_status :: string
  fm_downtime_minutes :: int
  fm_delivery_timeliness :: real
  fm_timestamp :: int

text \<open>
  The attributes of \<^verbatim>\<open>MockInternalDataProvider\<close>. Instants are seconds on the clock
  \<^verbatim>\<open>datetime.now()\<close> reads.
\<close>

record provider =
  failure_rate :: real
  facility_states :: "int \<rightharpoonup> facility_state"
  last_update_time :: "int \<rightharpoonup> real"


text \<open>
  \<^verbatim>\<open>get_facility_metrics\<close>, given the reading \<open>current_time\<close> of the clock. The
  unavailability draw comes first and returns before anything else is read or written.
  A facility without a state is initialised, and one without a recorded update time is
  taken to have been updated an hour before.
\<close>

definition get_facility_metrics ::
  "provider \<Rightarrow> int \<Rightarrow> string \<Rightarrow> real \<Rightarrow> rng \<Rightarrow> facility_metrics option \<times> provider \<times> rng" where
  "get_facility_metrics self facility_id facility_type current_time g =
     (case random_random g of (u, g0) \<Rightarrow>
      if u < failure_rate self then (None, self, g0)
      else
        case (case facility_states self facility_id of
                None \<Rightarrow> initialize_facility_state facility_type g0
              | Some st \<Rightarrow> (st, g0)) of (state0, g1) \<Rightarrow>
        let last_update = (case last_update_time self facility_id of
                             None \<Rightarrow> current_time - 3600
                           | Some t \<Rightarrow> t);
            hours_since_update = (current_time - last_update) / 3600
        in
        case update_facility_state state0 facility_type hours_since_update g1 of (state, g2) \<Rightarrow>
        let minutes_offset = (facility_id * 17) mod 60;
            timestamp = \<lfloor>current_time - real_of_int (60 * minutes_offset)\<rfloor>
        in
        (Some \<lparr>fm_facility_id = facility_id,
               fm_staffing_level = staffing_level state,
               fm_productivity_rate = productivity_rate state,
               fm_equipment_status = equipment_status state,
               fm_downtime_minutes = downtime_minutes state,
               fm_delivery_timeliness = delivery_timeliness state,
               fm_timestamp = timestamp\<rparr>,
         self\<lparr>facility_states := (facility_states self)(facility_id \<mapsto> state),
              last_update_time := (last_update_time self)(facility_id \<mapsto> current_time)\<rparr>,
         g2))"

section \<open>Concrete facility states\<close>

text \<open>A facility under maintenance with five hours of cooldown left.\<close>

definition cooling_state :: facility_state where
  "cooling_state =
     \<lparr>staffing_level = 200, productivity_rate = 0.95, equipment_status = ''Maintenance'',
      delivery_timeliness = 95, downtime_minutes = 0, equipment_change_cooldown = 5,
      staffing_trend = 0, productivity_trend = 0\<rparr>"

text \<open>An operational hub at optimal staffing.\<close>

definition steady_hub :: facility_state where
  "steady_hub =
     \<lparr>staffing_level = 200, productivity_rate = 1.0, equipment_status = ''Operational'',
      delivery_timeliness = 90, downtime_minutes = 0, equipment_change_cooldown = 0,
      staffing_trend = 0, productivity_trend = 0\<rparr>"

text \<open>A hub whose equipment is down, with five hours of cooldown left.\<close>

definition down_state :: facility_state where
  "down_state =
     \<lparr>staffing_level = 200, productivity_rate = 0.5, equipment_status = ''Down'',
      delivery_timeliness = 80, downtime_minutes = 0, equipment_change_cooldown = 5,
      staffing_trend = 0, productivity_trend = 0\<rparr>"



section \<open>Retrying persistence (database/logic.py)\<close>

text \<open>
  What running a storage closure does: it returns a value, or raises. The exceptions are
  \<^verbatim>\<open>sqlite3.OperationalError\<close> with its message, and every other \<^verbatim>\<open>Exception\<close>.
\<close>

datatype exn = OperationalError string | OtherError string

datatype 'a outcome = Returned 'a | Raised exn

text \<open>\<^verbatim>\<open>str.lower()\<close> on ASCII text, and the substring test \<^verbatim>\<open>needle in text\<close>.\<close>

definition lower_char :: "char \<Rightarrow> char" where
  "lower_char c =
     (let n = (of_char c :: nat) in if 65 \<le> n \<and> n \<le> 90 then char_of (n + 32) else c)"

definition str_lower :: "string \<Rightarrow> string" where
  "str_lower s = map lower_char s"

fun starts_with :: "string \<Rightarrow> string \<Rightarrow> bool" where
  "starts_with [] text = True"
| "starts_with (c # cs) [] = False"
| "starts_with (c # cs) (d # ds) = (c = d \<and> starts_with cs ds)"

fun py_in :: "string \<Rightarrow> string \<Rightarrow> bool" where
  "py_in needle [] = (needle = [])"
| "py_in needle (d # ds) = (starts_with needle (d # ds) \<or> py_in needle ds)"

text \<open>
  The condition under which \<^verbatim>\<open>retry_db_operation\<close> treats an exception as the transient
  storage-busy error: an \<^verbatim>\<open>OperationalError\<close> whose lower-cased text contains
  \<^verbatim>\<open>database is locked\<close>.
\<close>

definition is_locked :: "exn \<Rightarrow> bool" where
  "is_locked e =
     (case e of
        OperationalError msg \<Rightarrow> py_in ''database is locked'' (str_lower msg)
      | OtherError msg \<Rightarrow> False)"

text \<open>
  \<^verbatim>\<open>retry_db_operation\<close>. The operation acts on a store of type \<open>'s\<close>; the process state
  carried along is the store, the random source (for the jitter) and the delays passed to
  \<^verbatim>\<open>time.sleep\<close>, in order. \<open>retry_loop\<close> is the body of the \<^verbatim>\<open>for\<close> loop from the given
  attempt on. A loop that ends without returning (only for \<^verbatim>\<open>max_retries = 0\<close>) makes the
  function return \<^verbatim>\<open>None\<close>.
\<close>

function retry_loop ::
  "('s \<Rightarrow> 'a outcome \<times> 's) \<Rightarrow> nat \<Rightarrow> real \<Rightarrow> nat \<Rightarrow> 's \<times> rng \<times> real list
     \<Rightarrow> 'a option outcome \<times> 's \<times> rng \<times> real list" where
  "retry_loop operation_func max_retries base_delay attempt (s, g, naps) =
     (if attempt < max_retries then
        (case operation_func s of
           (Returned v, s') \<Rightarrow> (Returned (Some v), s', g, naps)
         | (Raised e, s') \<Rightarrow>
             (case e of
                OperationalError msg \<Rightarrow>
                  if py_in ''database is locked'' (str_lower msg) \<and> attempt < max_retries - 1
                  then
                    (case random_uniform 0 0.1 g of (jitter, g') \<Rightarrow>
                       let delay = base_delay * (2 ^ attempt) + jitter
                       in retry_loop operation_func max_retries base_delay (attempt + 1)
                            (s', g', naps @ [delay]))
                  else (Raised e, s', g, naps)
              | OtherError msg \<Rightarrow> (Raised e, s', g, naps)))
      else (Returned None, s, g, naps))"
  by pat_completeness auto
termination
  by (relation "measure (\<lambda>(operation_func, max_retries, base_delay, attempt, st).
        max_retries - attempt)") auto

declare retry_loop.simps [simp del]

definition retry_db_operation ::
  "('s \<Rightarrow> 'a outcome \<times> 's) \<Rightarrow> nat \<Rightarrow> real \<Rightarrow> 's \<times> rng \<times> real list
     \<Rightarrow> 'a option outcome \<times> 's \<times> rng \<times> real list" where
  "retry_db_operation operation_func max_retries base_delay st =
     retry_loop operation_func max_retries base_delay 0 st"

text \<open>
  An operation instrumented with the number of times it has been invoked: the count is
  kept beside the operation's own store.
\<close>

definition counted :: "('s \<Rightarrow> 'a outcome \<times> 's) \<Rightarrow> 's \<times> nat \<Rightarrow> 'a outcome \<times> ('s \<times> nat)" where
  "counted operation_func sn =
     (case operation_func (fst sn) of (r, s') \<Rightarrow> (r, (s', Suc (snd sn))))"

text \<open>
  A scripted operation for concrete runs: its store is the list of the outcomes of its
  successive invocations (success once the script is used up).
\<close>

definition scripted :: "unit outcome list \<Rightarrow> unit outcome \<times> unit outcome list" where
  "scripted script = (case script of [] \<Rightarrow> (Returned (), []) | r # rest \<Rightarrow> (r, rest))"

definition busy :: "unit outcome" where
  "busy = Raised (OperationalError ''database is locked'')"

definition disk_error :: "unit outcome" where
  "disk_error = Raised (OperationalError ''disk I/O error'')"

section \<open>The metrics sink and the collection cycle (services/background_services.py)\<close>

text \<open>
  A row of \<^verbatim>\<open>GET_ALL_ACTIVE_FACILITIES_WITH_METRICS\<close>: the columns of the facility the
  background service reads, and the productivity rate and equipment status of its latest
  metrics row (\<^verbatim>\<open>NULL\<close> when the facility has none).
\<close>

record facility =
  f_id :: int
  f_name :: string
  f_facility_type :: string
  f_max_capacity :: int
  f_current_load :: int
  f_productivity_rate :: "real option"
  f_equipment_status :: "string option"

text \<open>
  The metrics table as the persistence path sees it. \<open>metrics_rows\<close> are the committed
  rows (the six inserted columns). \<open>faults\<close> scripts the storage: its entries are consumed
  by the successive executions of a storage closure, \<open>Some e\<close> making that execution
  raise \<open>e\<close> before its commit, \<open>None\<close> (or an exhausted script) letting it commit.
  \<open>insert_calls\<close> records the arguments of the calls of \<^verbatim>\<open>MetricsDB.insert_metrics\<close>.
\<close>

record sink =
  metrics_rows :: "facility_metrics list"
  faults :: "exn option list"
  insert_calls :: "facility_metrics list"

text \<open>
  The closures \<^verbatim>\<open>_batch_insert\<close> and \<^verbatim>\<open>_insert\<close>: all inserts of one closure are made on
  one connection and committed together, so an execution that raises leaves no row.
\<close>

definition batch_insert :: "facility_metrics list \<Rightarrow> sink \<Rightarrow> unit outcome \<times> sink" where
  "batch_insert metrics_list s =
     (case faults s of
        [] \<Rightarrow> (Returned (), s\<lparr>metrics_rows := metrics_rows s @ metrics_list\<rparr>)
      | None # rest \<Rightarrow>
          (Returned (), s\<lparr>metrics_rows := metrics_rows s @ metrics_list, faults := rest\<rparr>)
      | Some e # rest \<Rightarrow> (Raised e, s\<lparr>faults := rest\<rparr>))"

definition insert_one :: "facility_metrics \<Rightarrow> sink \<Rightarrow> unit outcome \<times> sink" where
  "insert_one metrics s = batch_insert [metrics] s"

text \<open>\<^verbatim>\<open>DataAggregator._batch_insert_metrics\<close> and \<^verbatim>\<open>MetricsDB.insert_metrics\<close>.\<close>

definition batch_insert_metrics ::
  "facility_metrics list \<Rightarrow> sink \<times> rng \<times> real list
     \<Rightarrow> unit option outcome \<times> sink \<times> rng \<times> real list" where
  "batch_insert_metrics metrics_list st = retry_db_operation (batch_insert metrics_list) 3 0.1 st"

definition insert_metrics ::
  "facility_metrics \<Rightarrow> sink \<times> rng \<times> real list
     \<Rightarrow> unit option outcome \<times> sink \<times> rng \<times> real list" where
  "insert_metrics metrics st =
     (case st of (s, g, naps) \<Rightarrow>
        retry_db_operation (insert_one metrics) 3 0.1
          (s\<lparr>insert_calls := insert_calls s @ [metrics]\<rparr>, g, naps))"

text \<open>
  The first loop of \<^verbatim>\<open>_collect_facility_metrics\<close>: the metrics of the facilities for which
  the provider has data, in the order of the facilities. One reading of the clock stands
  for the whole cycle.
\<close>

fun collect_batch ::
  "facility list \<Rightarrow> real \<Rightarrow> provider \<times> rng \<Rightarrow> facility_metrics list \<times> provider \<times> rng" where
  "collect_batch [] current_time (p, g) = ([], p, g)"
| "collect_batch (facility # facilities) current_time (p, g) =
     (case get_facility_metrics p (f_id facility) (f_facility_type facility) current_time g of
        (metrics, p', g') \<Rightarrow>
          (case collect_batch facilities current_time (p', g') of
             (batch, p'', g'') \<Rightarrow>
               ((case metrics of None \<Rightarrow> batch | Some m \<Rightarrow> m # batch), p'', g'')))"

text \<open>
  The fallback loop: one call of \<^verbatim>\<open>MetricsDB.insert_metrics\<close> per sample, an exception of
  one call being caught inside the loop body.
\<close>

fun insert_individually ::
  "facility_metrics list \<Rightarrow> sink \<times> rng \<times> real list \<Rightarrow> sink \<times> rng \<times> real list" where
  "insert_individually [] st = st"
| "insert_individually (metrics # rest) st =
     (case insert_metrics metrics st of (r, st') \<Rightarrow> insert_individually rest st')"

text \<open>
  The second half of \<^verbatim>\<open>_collect_facility_metrics\<close>: the batch insert in one transaction
  and, when it raises, the fallback to individual inserts.
\<close>

definition store_batch ::
  "facility_metrics list \<Rightarrow> sink \<times> rng \<times> real list \<Rightarrow> sink \<times> rng \<times> real list" where
  "store_batch metrics_batch st =
     (if metrics_batch \<noteq> [] then
        (case batch_insert_metrics metrics_batch st of
           (Returned r, st') \<Rightarrow> st'
         | (Raised e, st') \<Rightarrow> insert_individually metrics_batch st')
      else st)"

text \<open>\<^verbatim>\<open>_collect_facility_metrics\<close>.\<close>

definition collect_facility_metrics ::
  "facility list \<Rightarrow> real \<Rightarrow> provider \<times> sink \<times> rng \<times> real list
     \<Rightarrow> provider \<times> sink \<times> rng \<times> real list" where
  "collect_facility_metrics facilities current_time st =
     (case st of (p, s, g, naps) \<Rightarrow>
        case collect_batch facilities current_time (p, g) of (metrics_batch, p', g') \<Rightarrow>
        (p', store_batch metrics_batch (s, g', naps)))"

text \<open>Two samples and two facilities for concrete runs.\<close>

definition sample :: "int \<Rightarrow> facility_metrics" where
  "sample i =
     \<lparr>fm_facility_id = i, fm_staffing_level = 20, fm_productivity_rate = 0.9,
      fm_equipment_status = ''Operational'', fm_downtime_minutes = 0,
      fm_delivery_timeliness = 95, fm_timestamp = 0\<rparr>"

definition empty_sink :: sink where
  "empty_sink = \<lparr>metrics_rows = [], faults = [], insert_calls = []\<rparr>"

text \<open>
  A sink whose first storage execution fails with an error that is not retried, and whose
  second fails as well.
\<close>

definition faulty_sink :: sink where
  "faulty_sink =
     empty_sink\<lparr>faults := [Some (OtherError ''constraint failed''),
                            Some (OperationalError ''disk I/O error'')]\<rparr>"

section \<open>The alert ledger and the alert checks\<close>

text \<open>
  The text of an alert is an f-string; the model keeps the template and its arguments.
\<close>

datatype alert_message =
    ProductivityAt string real
  | EquipmentDownAt string
  | EquipmentMaintenanceAt string
  | CapacityAt string real

text \<open>
  A row of the \<^verbatim>\<open>alerts\<close> table. \<open>a_created_at\<close> is the instant of
  \<^verbatim>\<open>CURRENT_TIMESTAMP\<close> in seconds; the ledger is the list of the rows in insertion order.
  The alert checks are modelled on a ledger that is available: every statement they issue
  takes effect.
\<close>

record alert =
  a_facility_id :: int
  a_alert_type :: string
  a_message :: alert_message
  a_severity :: string
  a_resolved :: bool
  a_created_at :: int

text \<open>
  \<^verbatim>\<open>AlertsDB.insert_alert\<close> at the instant \<open>now\<close>: the row is unresolved (the column's
  default) and stamped with the current time.
\<close>

definition insert_alert ::
  "int \<Rightarrow> string \<Rightarrow> alert_message \<Rightarrow> string \<Rightarrow> int \<Rightarrow> alert list \<Rightarrow> alert list" where
  "insert_alert facility_id alert_type message severity now alerts =
     alerts @ [\<lparr>a_facility_id = facility_id, a_alert_type = alert_type, a_message = message,
                a_severity = severity, a_resolved = False, a_created_at = now\<rparr>]"

text \<open>
  \<^verbatim>\<open>AlertsDB.check_existing_alert\<close> with the query \<^verbatim>\<open>CHECK_EXISTING_ALERT\<close>: is there an
  unresolved row of that facility and type created after \<^verbatim>\<open>datetime('now', '-{hours} hour')\<close>.
\<close>

definition check_existing_alert :: "int \<Rightarrow> string \<Rightarrow> int \<Rightarrow> int \<Rightarrow> alert list \<Rightarrow> bool" where
  "check_existing_alert facility_id alert_type hours now alerts =
     (filter (\<lambda>a. a_facility_id a = facility_id \<and> a_alert_type a = alert_type \<and>
                   a_resolved a = False \<and> a_created_at a > now - 3600 * hours) alerts \<noteq> [])"

text \<open>\<^verbatim>\<open>_resolve_equipment_alerts_for_facility\<close>: the \<^verbatim>\<open>UPDATE\<close> statement.\<close>

definition resolve_equipment_alerts_for_facility :: "int \<Rightarrow> alert list \<Rightarrow> alert list" where
  "resolve_equipment_alerts_for_facility facility_id alerts =
     map (\<lambda>a. if a_facility_id a = facility_id \<and>
                  (a_alert_type a = ''equipment_down'' \<or> a_alert_type a = ''equipment_maintenance'') \<and>
                  a_resolved a = False
               then a\<lparr>a_resolved := True\<rparr> else a) alerts"

text \<open>
  The body of the loop of \<^verbatim>\<open>_check_productivity_alerts\<close>, and the loop over the rows of
  \<^verbatim>\<open>FacilityDB.get_all_active_facilities()\<close>.
\<close>

definition productivity_alert :: "int \<Rightarrow> facility \<Rightarrow> alert list \<Rightarrow> alert list" where
  "productivity_alert now facility alerts =
     (case f_productivity_rate facility of
        None \<Rightarrow> alerts
      | Some rate \<Rightarrow>
          if rate < 0.7 then
            (if \<not> check_existing_alert (f_id facility) ''low_productivity'' 1 now alerts
             then insert_alert (f_id facility) ''low_productivity''
                    (ProductivityAt (f_name facility) rate) ''warning'' now alerts
             else alerts)
          else alerts)"

fun check_productivity_alerts :: "int \<Rightarrow> facility list \<Rightarrow> alert list \<Rightarrow> alert list" where
  "check_productivity_alerts now [] alerts = alerts"
| "check_productivity_alerts now (facility # facilities) alerts =
     check_productivity_alerts now facilities (productivity_alert now facility alerts)"

text \<open>The body of the loop of \<^verbatim>\<open>_check_equipment_alerts\<close>, and the loop.\<close>

definition equipment_alert :: "int \<Rightarrow> facility \<Rightarrow> alert list \<Rightarrow> alert list" where
  "equipment_alert now facility alerts =
     (let facility_id = f_id facility;
          facility_name = f_name facility;
          equipment_status = f_equipment_status facility
      in
      if equipment_status = Some ''Down'' then
        (if \<not> check_existing_alert facility_id ''equipment_down'' 1 now alerts
         then insert_alert facility_id ''equipment_down''
                (EquipmentDownAt facility_name) ''critical'' now alerts
         else alerts)
      else if equipment_status = Some ''Maintenance'' then
        (if \<not> check_existing_alert facility_id ''equipment_maintenance'' 1 now alerts
         then insert_alert facility_id ''equipment_maintenance''
                (EquipmentMaintenanceAt facility_name) ''warning'' now alerts
         else alerts)
      else
        (if equipment_status = Some ''Operational''
         then resolve_equipment_alerts_for_facility facility_id alerts
         else alerts))"

fun check_equipment_alerts :: "int \<Rightarrow> facility list \<Rightarrow> alert list \<Rightarrow> alert list" where
  "check_equipment_alerts now [] alerts = alerts"
| "check_equipment_alerts now (facility # facilities) alerts =
     check_equipment_alerts now facilities (equipment_alert now facility alerts)"

text \<open>
  Python's true division of two integers raises \<^verbatim>\<open>ZeroDivisionError\<close> on a zero divisor.
\<close>

datatype py_error = ZeroDivisionError

definition py_truediv :: "int \<Rightarrow> int \<Rightarrow> py_error + real" where
  "py_truediv a b = (if b = 0 then Inl ZeroDivisionError else Inr (real_of_int a / real_of_int b))"

text \<open>
  The body of the loop of \<^verbatim>\<open>_check_capacity_alerts\<close>, and the loop. An exception leaves the
  loop: the result is the ledger at that point and the exception, if any.
\<close>

definition capacity_alert :: "int \<Rightarrow> facility \<Rightarrow> alert list \<Rightarrow> py_error + alert list" where
  "capacity_alert now facility alerts =
     (if f_max_capacity facility > 0 then
        (case py_truediv (f_current_load facility) (f_max_capacity facility) of
           Inl err \<Rightarrow> Inl err
         | Inr utilization \<Rightarrow>
             Inr (if utilization > 0.9 then
                    (if \<not> check_existing_alert (f_id facility) ''high_capacity'' 1 now alerts
                     then insert_alert (f_id facility) ''high_capacity''
                            (CapacityAt (f_name facility) utilization) ''warning'' now alerts
                     else alerts)
                  else alerts))
      else Inr alerts)"

fun check_capacity_alerts ::
  "int \<Rightarrow> facility list \<Rightarrow> alert list \<Rightarrow> alert list \<times> py_error option" where
  "check_capacity_alerts now [] alerts = (alerts, None)"
| "check_capacity_alerts now (facility # facilities) alerts =
     (case capacity_alert now facility alerts of
        Inl err \<Rightarrow> (alerts, Some err)
      | Inr alerts' \<Rightarrow> check_capacity_alerts now facilities alerts')"

text \<open>
  \<^verbatim>\<open>_check_for_alerts\<close>: the three checks in order, each over the rows of the active
  facilities (the checks do not write to the tables these rows come from, so the three
  queries return the same rows). An exception is caught and printed.
\<close>

definition check_for_alerts :: "int \<Rightarrow> facility list \<Rightarrow> alert list \<Rightarrow> alert list" where
  "check_for_alerts now facilities alerts =
     fst (check_capacity_alerts now facilities
            (check_equipment_alerts now facilities
               (check_productivity_alerts now facilities alerts)))"

text \<open>\<^verbatim>\<open>sync_alerts_with_current_data\<close>: the body of its loop, and the loop.\<close>

definition sync_alert :: "int \<Rightarrow> facility \<Rightarrow> alert list \<Rightarrow> alert list" where
  "sync_alert now facility alerts =
     (let facility_id = f_id facility;
          facility_name = f_name facility;
          equipment_status = f_equipment_status facility;
          alerts1 =
            (if equipment_status = Some ''Down'' then
               (if \<not> check_existing_alert facility_id ''equipment_down'' 1 now alerts
                then insert_alert facility_id ''equipment_down''
                       (EquipmentDownAt facility_name) ''critical'' now alerts
                else alerts)
             else if equipment_status = Some ''Maintenance'' then
               (if \<not> check_existing_alert facility_id ''equipment_maintenance'' 1 now alerts
                then insert_alert facility_id ''equipment_maintenance''
                       (EquipmentMaintenanceAt facility_name) ''warning'' now alerts
                else alerts)
             else if equipment_status = Some ''Operational'' then
               resolve_equipment_alerts_for_facility facility_id alerts
             else alerts)
      in
      case f_productivity_rate facility of
        None \<Rightarrow> alerts1
      | Some rate \<Rightarrow>
          if rate < 0.7 then
            (if \<not> check_existing_alert facility_id ''low_productivity'' 1 now alerts1
             then insert_alert facility_id ''low_productivity''
                    (ProductivityAt facility_name rate) ''warning'' now alerts1
             else alerts1)
          else alerts1)"

fun sync_alerts_with_current_data :: "int \<Rightarrow> facility list \<Rightarrow> alert list \<Rightarrow> alert list" where
  "sync_alerts_with_current_data now [] alerts = alerts"
| "sync_alerts_with_current_data now (facility # facilities) alerts =
     sync_alerts_with_current_data now facilities (sync_alert now facility alerts)"

text \<open>
  The unresolved alerts of a facility and type: all of them, and those created within the
  hour before \<open>now\<close>. And the equipment alerts of a facility, resolved or not.
\<close>

definition unresolved_alerts :: "int \<Rightarrow> string \<Rightarrow> alert list \<Rightarrow> alert list" where
  "unresolved_alerts facility_id alert_type alerts =
     filter (\<lambda>a. a_facility_id a = facility_id \<and> a_alert_type a = alert_type \<and>
                  a_resolved a = False) alerts"

definition recent_unresolved :: "int \<Rightarrow> int \<Rightarrow> string \<Rightarrow> alert list \<Rightarrow> alert list" where
  "recent_unresolved now facility_id alert_type alerts =
     filter (\<lambda>a. a_facility_id a = facility_id \<and> a_alert_type a = alert_type \<and>
                  a_resolved a = False \<and> a_created_at a > now - 3600) alerts"



text \<open>Facility rows and alerts for concrete runs.\<close>

definition facility_row :: "int \<Rightarrow> string option \<Rightarrow> int \<Rightarrow> int \<Rightarrow> facility" where
  "facility_row i status load capacity =
     \<lparr>f_id = i, f_name = ''Depot'', f_facility_type = ''station'', f_max_capacity = capacity,
      f_current_load = load, f_productivity_rate = Some 0.9, f_equipment_status = status\<rparr>"

definition old_down_alert :: alert where
  "old_down_alert =
     \<lparr>a_facility_id = 1, a_alert_type = ''equipment_down'',
      a_message = EquipmentDownAt ''Depot'', a_severity = ''critical'',
      a_resolved = False, a_created_at = 0\<rparr>"


section \<open>Facts about rounding to double precision\<close>

text \<open>
  The rounded value of a non-negative real is non-negative, it lies between the floor and
  the ceiling of the real, and in the binade where \<open>x * 2 ^ n\<close> has 53 bits it is
  \<open>x * 2 ^ n\<close> rounded to a whole number and scaled back.
\<close>

lemma ulp_below_pos: "0 < ulp_below n x"
  by (induction n arbitrary: x) simp_all

lemma ulp_above_pos: "0 < ulp_above n x"
  by (induction n arbitrary: x) simp_all

lemma ulp_pos: "0 < ulp x"
  by (simp add: ulp_def ulp_below_pos ulp_above_pos)

lemma round_half_even_bounds: "\<lfloor>x\<rfloor> \<le> round_half_even x \<and> round_half_even x \<le> \<lceil>x\<rceil>"
proof -
  have "\<lceil>x\<rceil> = \<lfloor>x\<rfloor> + 1" if "x - real_of_int \<lfloor>x\<rfloor> \<noteq> 0"
    using that by (simp add: ceiling_altdef)
  then show ?thesis
    by (auto simp: round_half_even_def Let_def)
qed

lemma round_half_even_between:
  assumes "real_of_int a \<le> y" "y \<le> real_of_int b"
  shows "a \<le> round_half_even y \<and> round_half_even y \<le> b"
proof -
  have "a \<le> \<lfloor>y\<rfloor>" using assms(1) by (simp add: le_floor_iff)
  moreover have "\<lceil>y\<rceil> \<le> b" using assms(2) by (simp add: ceiling_le_iff)
  ultimately show ?thesis using round_half_even_bounds[of y] by linarith
qed

lemma fl_nonneg: "0 \<le> x \<Longrightarrow> 0 \<le> fl x"
proof -
  assume x: "0 \<le> x"
  have "0 \<le> x / ulp x" using x ulp_pos[of x] by simp
  then have "0 \<le> \<lfloor>x / ulp x\<rfloor>" by simp
  then have "0 \<le> round_half_even (x / ulp x)"
    using round_half_even_bounds[of "x / ulp x"] by linarith
  then show ?thesis using ulp_pos[of x] by (simp add: fl_def)
qed

lemma ulp_below_power: "\<exists>k. ulp_below n x = 1 / 2 ^ k"
proof (induction n arbitrary: x)
  case 0
  have "ulp_below 0 x = 1 / 2 ^ 0" by simp
  then show ?case by blast
next
  case (Suc n)
  show ?case
  proof (cases "x < 2 ^ 52")
    case True
    obtain k where "ulp_below n (2 * x) = 1 / 2 ^ k" using Suc[of "2 * x"] by blast
    then have "ulp_below (Suc n) x = 1 / 2 ^ Suc k" using True by simp
    then show ?thesis by blast
  next
    case False
    then have "ulp_below (Suc n) x = 1 / 2 ^ 0" by simp
    then show ?thesis by blast
  qed
qed

lemma fl_between:
  assumes "0 \<le> x" "x < 2 ^ 53"
  shows "real_of_int \<lfloor>x\<rfloor> \<le> fl x \<and> fl x \<le> real_of_int \<lceil>x\<rceil>"
proof -
  have u: "ulp x = ulp_below 1074 x" using assms by (simp add: ulp_def)
  obtain k where k: "ulp x = 1 / 2 ^ k" using ulp_below_power[of 1074 x] u by auto
  have q: "x / ulp x = x * 2 ^ k" by (simp add: k)
  have lo: "real_of_int (\<lfloor>x\<rfloor> * 2 ^ k) \<le> x * 2 ^ k"
    by (simp add: mult_right_mono)
  have hi: "x * 2 ^ k \<le> real_of_int (\<lceil>x\<rceil> * 2 ^ k)"
    by (simp add: mult_right_mono)
  have b: "\<lfloor>x\<rfloor> * 2 ^ k \<le> round_half_even (x * 2 ^ k) \<and>
           round_half_even (x * 2 ^ k) \<le> \<lceil>x\<rceil> * 2 ^ k"
    by (rule round_half_even_between[OF lo hi])
  have f: "fl x = real_of_int (round_half_even (x * 2 ^ k)) / 2 ^ k"
    unfolding fl_def q by (simp add: k)
  have "real_of_int (\<lfloor>x\<rfloor> * 2 ^ k) \<le> real_of_int (round_half_even (x * 2 ^ k))"
    using b by linarith
  then have l: "real_of_int \<lfloor>x\<rfloor> \<le> fl x"
    unfolding f by (simp add: pos_le_divide_eq)
  have "real_of_int (round_half_even (x * 2 ^ k)) \<le> real_of_int (\<lceil>x\<rceil> * 2 ^ k)"
    using b by linarith
  then have h: "fl x \<le> real_of_int \<lceil>x\<rceil>"
    unfolding f by (simp add: pos_divide_le_eq)
  show ?thesis using l h by simp
qed

lemma floor_fl_between:
  assumes "0 \<le> x" "x < 2 ^ 53"
  shows "\<lfloor>x\<rfloor> \<le> \<lfloor>fl x\<rfloor> \<and> \<lfloor>fl x\<rfloor> \<le> \<lceil>x\<rceil>"
proof -
  have "\<lfloor>x\<rfloor> \<le> \<lfloor>fl x\<rfloor>"
    using fl_between[OF assms] by (simp add: le_floor_iff)
  moreover have "\<lfloor>fl x\<rfloor> \<le> \<lceil>x\<rceil>"
    using fl_between[OF assms] by (simp add: floor_le_iff)
  ultimately show ?thesis by simp
qed

lemma ulp_below_eq:
  assumes "2 ^ 52 \<le> x * 2 ^ n" "x * 2 ^ n < 2 ^ 53" "n \<le> m"
  shows "ulp_below m x = 1 / 2 ^ n"
  using assms
proof (induction n arbitrary: m x)
  case 0
  then show ?case by (cases m) simp_all
next
  case (Suc n)
  obtain m' where m: "m = Suc m'" "n \<le> m'" using Suc.prems(3) by (cases m) auto
  have "0 < x * 2 ^ Suc n"
    using Suc.prems(1) by (rule less_le_trans[rotated]) simp
  then have pos: "0 < x" by (simp add: zero_less_mult_iff)
  have "(2::real) \<le> 2 ^ Suc n" by simp
  then have "x * 2 \<le> x * 2 ^ Suc n" using pos by (intro mult_left_mono) simp_all
  then have lt: "x < 2 ^ 52" using Suc.prems(2) by simp
  have e: "2 * x * 2 ^ n = x * 2 ^ Suc n" by simp
  have "ulp_below m' (2 * x) = 1 / 2 ^ n"
    by (rule Suc.IH) (use Suc.prems(1,2) m(2) in \<open>simp_all only: e\<close>)
  then show ?case using m(1) lt by simp
qed

lemma fl_eq:
  assumes "0 \<le> x" "2 ^ 52 \<le> x * 2 ^ n" "x * 2 ^ n < 2 ^ 53" "n \<le> 1074"
  shows "fl x = real_of_int (round_half_even (x * 2 ^ n)) / 2 ^ n"
proof -
  have "1 \<le> (2::real) ^ n" by simp
  then have "x * 1 \<le> x * 2 ^ n" using assms(1) by (intro mult_left_mono) simp_all
  then have "x < 2 ^ 53" using assms(3) by simp
  then have "ulp x = ulp_below 1074 x" using assms(1) by (simp add: ulp_def)
  then have "ulp x = 1 / 2 ^ n" using ulp_below_eq[OF assms(2,3,4)] by simp
  then show ?thesis by (simp add: fl_def)
qed

lemma minutes_7380: "\<lfloor>fl (2308094809027379 / 1125899906842624 * 60)\<rfloor> = 122"
proof -
  have r: "round_half_even (2308094809027379 / 1125899906842624 * 60 * 2 ^ 46) = 8655355533852671"
    by (simp add: round_half_even_def Let_def)
  have "fl (2308094809027379 / 1125899906842624 * 60) =
        real_of_int (round_half_even (2308094809027379 / 1125899906842624 * 60 * 2 ^ 46)) / 2 ^ 46"
    by (rule fl_eq) simp_all
  then have f: "fl (2308094809027379 / 1125899906842624 * 60) = 8655355533852671 / 70368744177664"
    unfolding r by simp
  show ?thesis unfolding f by simp
qed

lemma minutes_600: "\<lfloor>fl (6004799503160661 / 36028797018963968 * 60)\<rfloor> = 10"
proof -
  have r: "round_half_even (6004799503160661 / 36028797018963968 * 60 * 2 ^ 49) = 5629499534213120"
    by (simp add: round_half_even_def Let_def)
  have "fl (6004799503160661 / 36028797018963968 * 60) =
        real_of_int (round_half_even (6004799503160661 / 36028797018963968 * 60 * 2 ^ 49)) / 2 ^ 49"
    by (rule fl_eq) simp_all
  then have f: "fl (6004799503160661 / 36028797018963968 * 60) = 10"
    unfolding r by simp
  show ?thesis unfolding f by simp
qed

lemma exact_floor_600: "\<lfloor>6004799503160661 / 36028797018963968 * 60 :: real\<rfloor> = 9"
  by simp

lemma fl_small: "fl (1 / 128 * 60) = 15 / 32"
proof -
  have r: "round_half_even (1 / 128 * 60 * 2 ^ 54) = 8444249301319680"
    by (simp add: round_half_even_def Let_def)
  have "fl (1 / 128 * 60) = real_of_int (round_half_even (1 / 128 * 60 * 2 ^ 54)) / 2 ^ 54"
    by (rule fl_eq) simp_all
  then show ?thesis unfolding r by simp
qed


section \<open>Bounds of the simulated state\<close>

lemma py_int_nonneg: "0 \<le> x \<Longrightarrow> 0 \<le> py_int x"
  by (simp add: py_int_def)

lemma py_int_bounds: "real_of_int a \<le> x \<Longrightarrow> x \<le> real_of_int b \<Longrightarrow> a \<le> py_int x \<and> py_int x \<le> b"
  unfolding py_int_def by (auto simp: le_floor_iff floor_le_iff ceiling_le_iff le_ceiling_iff)

lemma equipment_keeps:
  assumes "update_equipment_status state h g = (state', g')"
  shows "staffing_level state' = staffing_level state"
    and "productivity_rate state' = productivity_rate state"
    and "delivery_timeliness state' = delivery_timeliness state"
    and "downtime_minutes state' = downtime_minutes state"
    and "staffing_trend state' = staffing_trend state"
  using assms
  by (auto simp: update_equipment_status_def Let_def random_random_def random_uniform_def
      split: if_splits prod.splits)

lemma staffing_keeps:
  assumes "update_staffing_level state ft h g = (state', g')"
  shows "productivity_rate state' = productivity_rate state"
    and "delivery_timeliness state' = delivery_timeliness state"
    and "downtime_minutes state' = downtime_minutes state"
    and "equipment_status state' = equipment_status state"
    and "equipment_change_cooldown state' = equipment_change_cooldown state"
  using assms
  by (auto simp: update_staffing_level_def Let_def random_random_def random_uniform_def
      split: if_splits prod.splits)

lemma staffing_bounds:
  assumes "update_staffing_level state ft h g = (state', g')"
    and "if ft = ''hub'' then 80 \<le> staffing_level state \<and> staffing_level state \<le> 350
         else 8 \<le> staffing_level state \<and> staffing_level state \<le> 35"
  shows "if ft = ''hub'' then 80 \<le> staffing_level state' \<and> staffing_level state' \<le> 350
         else 8 \<le> staffing_level state' \<and> staffing_level state' \<le> 35"
proof -
  have hub: "80 \<le> py_int (max 80 (min 350 x)) \<and> py_int (max 80 (min 350 x)) \<le> 350" for x :: real
    by (rule py_int_bounds) auto
  have stn: "8 \<le> py_int (max 8 (min 35 x)) \<and> py_int (max 8 (min 35 x)) \<le> 35" for x :: real
    by (rule py_int_bounds) auto
  show ?thesis
    using assms hub stn
    by (auto simp: update_staffing_level_def Let_def random_random_def random_uniform_def
      split: if_splits prod.splits)
qed


lemma clamp_bounds:
  fixes lo hi x :: real
  assumes "lo \<le> hi"
  shows "lo \<le> max lo (min hi x) \<and> max lo (min hi x) \<le> hi"
  using assms by auto

lemma productivity_step:
  "0.1 \<le> productivity_rate (update_productivity state ft h) \<and>
   productivity_rate (update_productivity state ft h) \<le> 1.3 \<and>
   staffing_level (update_productivity state ft h) = staffing_level state \<and>
   delivery_timeliness (update_productivity state ft h) = delivery_timeliness state \<and>
   downtime_minutes (update_productivity state ft h) = downtime_minutes state \<and>
   equipment_status (update_productivity state ft h) = equipment_status state \<and>
   equipment_change_cooldown (update_productivity state ft h) = equipment_change_cooldown state"
  using clamp_bounds[of "0.1" "1.3"]
  by (simp add: update_productivity_def Let_def del: max_less_iff_conj min_less_iff_conj)

lemma timeliness_step:
  "60 \<le> delivery_timeliness (update_timeliness state ft h) \<and>
   delivery_timeliness (update_timeliness state ft h) \<le> 99.9 \<and>
   staffing_level (update_timeliness state ft h) = staffing_level state \<and>
   productivity_rate (update_timeliness state ft h) = productivity_rate state \<and>
   downtime_minutes (update_timeliness state ft h) = downtime_minutes state \<and>
   equipment_status (update_timeliness state ft h) = equipment_status state \<and>
   equipment_change_cooldown (update_timeliness state ft h) = equipment_change_cooldown state"
  using clamp_bounds[of "60" "99.9"]
  by (simp add: update_timeliness_def Let_def)

lemma downtime_step:
  "staffing_level (update_downtime state h) = staffing_level state \<and>
   productivity_rate (update_downtime state h) = productivity_rate state \<and>
   delivery_timeliness (update_downtime state h) = delivery_timeliness state \<and>
   equipment_status (update_downtime state h) = equipment_status state \<and>
   equipment_change_cooldown (update_downtime state h) = equipment_change_cooldown state"
  by (simp add: update_downtime_def Let_def)

lemma downtime_bounds:
  assumes "0 \<le> h" "0 \<le> downtime_minutes state" "downtime_minutes state \<le> 480"
  shows "0 \<le> downtime_minutes (update_downtime state h) \<and>
         downtime_minutes (update_downtime state h) \<le> 480"
proof -
  have "0 \<le> fl (h * 60)" "0 \<le> fl (h * 30)"
    using assms(1) by (simp_all add: fl_nonneg)
  then have "0 \<le> py_int (fl (h * 60))" "0 \<le> py_int (fl (h * 30))"
    by (simp_all add: py_int_nonneg)
  then show ?thesis
    using assms(2,3) by (auto simp: update_downtime_def Let_def)
qed

lemma update_facility_state_in_bounds:
  assumes "in_bounds ft state" "0 \<le> h" "update_facility_state state ft h g = (state', g')"
  shows "in_bounds ft state'"
proof -
  define s1 where "s1 = state\<lparr>equipment_change_cooldown :=
                            max 0 (equipment_change_cooldown state - h)\<rparr>"
  obtain s2 g2 where e: "(if equipment_change_cooldown s1 \<le> 0
            then update_equipment_status s1 h g else (s1, g)) = (s2, g2)"
    by (cases "if equipment_change_cooldown s1 \<le> 0
            then update_equipment_status s1 h g else (s1, g)") auto
  obtain s3 g3 where s: "update_staffing_level s2 ft h g2 = (s3, g3)"
    by (cases "update_staffing_level s2 ft h g2") auto
  have st': "state' = update_downtime (update_timeliness (update_productivity s3 ft h) ft h) h"
    using assms(3) unfolding update_facility_state_def Let_def s1_def[symmetric] e by (simp add: s)
  have k2: "staffing_level s2 = staffing_level state" "downtime_minutes s2 = downtime_minutes state"
    using e equipment_keeps[of s1 h g s2 g2] by (auto simp: s1_def split: if_splits)
  have b3: "if ft = ''hub'' then 80 \<le> staffing_level s3 \<and> staffing_level s3 \<le> 350
         else 8 \<le> staffing_level s3 \<and> staffing_level s3 \<le> 35"
    using staffing_bounds[OF s] assms(1) k2 by (simp add: in_bounds_def)
  have d3: "downtime_minutes s3 = downtime_minutes state"
    using staffing_keeps(3)[OF s] k2 by simp
  let ?p = "update_productivity s3 ft h"
  let ?t = "update_timeliness ?p ft h"
  have d: "0 \<le> downtime_minutes (update_downtime ?t h) \<and> downtime_minutes (update_downtime ?t h) \<le> 480"
    using downtime_bounds[of h ?t] assms(1,2) d3 productivity_step[of s3 ft h] timeliness_step[of ?p ft h]
    by (simp add: in_bounds_def)
  show ?thesis
    unfolding st' in_bounds_def
    using b3 d productivity_step[of s3 ft h] timeliness_step[of ?p ft h] downtime_step[of ?t h]
    by (auto split: if_splits)
qed


lemma valid_rng_const: "0 \<le> u \<Longrightarrow> u < 1 \<Longrightarrow> valid_rng (const_rng u)"
  by (simp add: valid_rng_def const_rng_def)

lemma random_randint_range:
  assumes "valid_rng g" "a \<le> b" "random_randint a b g = (n, g')"
  shows "a \<le> n \<and> n \<le> b"
proof -
  have u: "0 \<le> g 0" "g 0 < 1" using assms(1) by (simp_all add: valid_rng_def)
  have n: "n = a + \<lfloor>g 0 * real_of_int (b - a + 1)\<rfloor>"
    using assms(3) by (simp add: random_randint_def random_random_def)
  have pos: "0 < real_of_int (b - a + 1)" using assms(2) by simp
  have "0 \<le> g 0 * real_of_int (b - a + 1)" using u pos by simp
  moreover have "g 0 * real_of_int (b - a + 1) < real_of_int (b - a + 1)"
    using u pos by simp
  ultimately have "0 \<le> \<lfloor>g 0 * real_of_int (b - a + 1)\<rfloor>" "\<lfloor>g 0 * real_of_int (b - a + 1)\<rfloor> < b - a + 1"
    unfolding floor_less_iff zero_le_floor by blast+
  then show ?thesis using n by simp
qed

lemma random_uniform_range:
  assumes "valid_rng g" "a \<le> b" "random_uniform a b g = (x, g')"
  shows "a \<le> x \<and> x \<le> b"
proof -
  have u: "0 \<le> g 0" "g 0 < 1" using assms(1) by (simp_all add: valid_rng_def)
  have x: "x = a + (b - a) * g 0"
    using assms(3) by (simp add: random_uniform_def random_random_def)
  have "0 \<le> (b - a) * g 0" using u assms(2) by simp
  moreover have "(b - a) * g 0 \<le> (b - a) * 1"
    using u assms(2) by (intro mult_left_mono) simp_all
  ultimately show ?thesis using x by simp
qed

lemma initialize_in_bounds:
  assumes "valid_rng g" "initialize_facility_state ft g = (state, g')"
  shows "in_bounds ft state"
proof -
  obtain n g1 where n: "(if ft = ''hub'' then random_randint 150 250 g
            else random_randint 15 25 g) = (n, g1)"
    by (cases "if ft = ''hub'' then random_randint 150 250 g else random_randint 15 25 g") auto
  obtain p g2 where p: "(if ft = ''hub'' then random_uniform 0.85 1.05 g1
            else random_uniform 0.88 1.02 g1) = (p, g2)"
    by (cases "if ft = ''hub'' then random_uniform 0.85 1.05 g1
            else random_uniform 0.88 1.02 g1") auto
  obtain t g3 where t: "(if ft = ''hub'' then random_uniform 90.0 96.0 g2
            else random_uniform 92.0 98.0 g2) = (t, g3)"
    by (cases "if ft = ''hub'' then random_uniform 90.0 96.0 g2
            else random_uniform 92.0 98.0 g2") auto
  have v1: "valid_rng g1"
    using n assms(1) by (auto simp: random_randint_def random_random_def valid_rng_def split: if_splits)
  have v2: "valid_rng g2"
    using p v1 by (auto simp: random_uniform_def random_random_def valid_rng_def split: if_splits)
  have st: "staffing_level state = n" "productivity_rate state = p"
    "delivery_timeliness state = t" "downtime_minutes state = 0"
    using assms(2) unfolding initialize_facility_state_def n
    by (auto simp: p t split: prod.splits)
  have bn: "if ft = ''hub'' then 150 \<le> n \<and> n \<le> 250 else 15 \<le> n \<and> n \<le> 25"
    using n random_randint_range[OF assms(1), of 150 250 n g1]
      random_randint_range[OF assms(1), of 15 25 n g1] by (auto split: if_splits)
  have bp: "0.85 \<le> p \<and> p \<le> 1.05"
    using p random_uniform_range[OF v1, of "0.85" "1.05" p g2]
      random_uniform_range[OF v1, of "0.88" "1.02" p g2] by (auto split: if_splits)
  have bt: "90 \<le> t \<and> t \<le> 98"
    using t random_uniform_range[OF v2, of "90" "96" t g3]
      random_uniform_range[OF v2, of "92" "98" t g3] by (auto split: if_splits)
  show ?thesis
    unfolding in_bounds_def st using bn bp bt by (auto split: if_splits)
qed

lemma trajectory_in_bounds:
  assumes "in_bounds ft state" "\<forall>h\<in>set hs. 0 \<le> h"
  shows "\<forall>st\<in>set (trajectory state ft hs g). in_bounds ft st"
  using assms
proof (induction hs arbitrary: state g)
  case Nil
  then show ?case by simp
next
  case (Cons h hs)
  obtain s' g' where u: "update_facility_state state ft h g = (s', g')"
    by (cases "update_facility_state state ft h g") auto
  have "in_bounds ft s'"
    using update_facility_state_in_bounds[OF Cons.prems(1) _ u] Cons.prems(2) by simp
  then show ?case
    using Cons.IH[of s' g'] Cons.prems(2) u by simp
qed

text \<open>
  Claim C2. For every facility type, every state that cold-start initialisation
  produces from a generator with draws in the unit interval, and every sequence of
  updates with non-negative elapsed hours (under any generator), staffing level,
  productivity rate, delivery timeliness and downtime minutes are within their
  documented bounds initially and after every update.
\<close>

theorem bounds_invariant:
  assumes "valid_rng g" "\<forall>h\<in>set hs. 0 \<le> h"
    and "initialize_facility_state facility_type g = (state0, g0)"
  shows "in_bounds facility_type state0 \<and>
         (\<forall>st\<in>set (trajectory state0 facility_type hs g1). in_bounds facility_type st)"
  using initialize_in_bounds[OF assms(1,3)] trajectory_in_bounds[OF _ assms(2)] by blast

theorem bounds_invariant_witness:
  "in_bounds ''hub'' (fst (initialize_facility_state ''hub'' (const_rng (1/2)))) \<and>
   list_all (in_bounds ''hub'')
     (trajectory (fst (initialize_facility_state ''hub'' (const_rng (1/2)))) ''hub''
        [1, 20, 1/120] (const_rng 0))"
proof -
  have v: "valid_rng (const_rng (1/2))" by (simp add: valid_rng_const)
  have h: "\<forall>h\<in>set [1, 20, 1/120 :: real]. 0 \<le> h" by simp
  have i: "initialize_facility_state ''hub'' (const_rng (1/2)) =
       (fst (initialize_facility_state ''hub'' (const_rng (1/2))),
        snd (initialize_facility_state ''hub'' (const_rng (1/2))))" by simp
  show ?thesis
    using bounds_invariant[OF v h i, of "const_rng 0"] by (simp add: list_all_iff)
qed

section \<open>Cooldown, relaxation and downtime\<close>

lemma update_facility_state_fields:
  fixes state :: facility_state and ft :: string and h :: real and g :: rng
  defines "s1 \<equiv> state\<lparr>equipment_change_cooldown :=
                          max 0 (equipment_change_cooldown state - h)\<rparr>"
  defines "e \<equiv> (if equipment_change_cooldown s1 \<le> 0
                 then update_equipment_status s1 h g else (s1, g))"
  defines "s3 \<equiv> fst (update_staffing_level (fst e) ft h (snd e))"
  shows "equipment_status (fst (update_facility_state state ft h g)) = equipment_status (fst e)"
    and "staffing_level (fst (update_facility_state state ft h g)) = staffing_level s3"
    and "productivity_rate (fst (update_facility_state state ft h g)) =
           productivity_rate (update_productivity s3 ft h)"
    and "delivery_timeliness (fst (update_facility_state state ft h g)) =
           delivery_timeliness (update_timeliness (update_productivity s3 ft h) ft h)"
proof -
  obtain s2 g2 where e2: "e = (s2, g2)" by (cases e) auto
  obtain t3 g3 where s: "update_staffing_level s2 ft h g2 = (t3, g3)"
    by (cases "update_staffing_level s2 ft h g2") auto
  have s3: "s3 = t3" by (simp add: s3_def e2 s)
  have u: "fst (update_facility_state state ft h g) =
           update_downtime (update_timeliness (update_productivity t3 ft h) ft h) h"
    unfolding update_facility_state_def Let_def s1_def[symmetric] e_def[symmetric] e2
    by (simp add: s)
  show "equipment_status (fst (update_facility_state state ft h g)) = equipment_status (fst e)"
    unfolding u e2 using staffing_keeps(4)[OF s]
    by (simp add: downtime_step timeliness_step productivity_step)
  show "staffing_level (fst (update_facility_state state ft h g)) = staffing_level s3"
    unfolding u s3 by (simp add: downtime_step timeliness_step productivity_step)
  show "productivity_rate (fst (update_facility_state state ft h g)) =
           productivity_rate (update_productivity s3 ft h)"
    unfolding u s3 by (simp add: downtime_step timeliness_step)
  show "delivery_timeliness (fst (update_facility_state state ft h g)) =
           delivery_timeliness (update_timeliness (update_productivity s3 ft h) ft h)"
    unfolding u s3 by (simp add: downtime_step)
qed

lemma py_int_floor: "0 \<le> x \<Longrightarrow> py_int x = \<lfloor>x\<rfloor>"
  by (simp add: py_int_def)

lemma update_facility_state_downtime:
  "downtime_minutes (fst (update_facility_state state ft h g)) =
     (if equipment_status (fst (update_facility_state state ft h g)) = ''Down''
      then min 480 (downtime_minutes state + py_int (fl (h * 60)))
      else if equipment_status (fst (update_facility_state state ft h g)) = ''Operational''
      then max 0 (downtime_minutes state - py_int (fl (h * 30)))
      else downtime_minutes state)"
proof -
  define s1 where "s1 = state\<lparr>equipment_change_cooldown :=
                            max 0 (equipment_change_cooldown state - h)\<rparr>"
  obtain s2 g2 where e: "(if equipment_change_cooldown s1 \<le> 0
            then update_equipment_status s1 h g else (s1, g)) = (s2, g2)"
    by (cases "if equipment_change_cooldown s1 \<le> 0
            then update_equipment_status s1 h g else (s1, g)") auto
  obtain s3 g3 where s: "update_staffing_level s2 ft h g2 = (s3, g3)"
    by (cases "update_staffing_level s2 ft h g2") auto
  let ?t = "update_timeliness (update_productivity s3 ft h) ft h"
  have u: "fst (update_facility_state state ft h g) = update_downtime ?t h"
    unfolding update_facility_state_def Let_def s1_def[symmetric] e by (simp add: s)
  have d2: "downtime_minutes s2 = downtime_minutes state"
    using e equipment_keeps(4)[of s1 h g s2 g2] by (auto simp: s1_def split: if_splits)
  have dt: "downtime_minutes ?t = downtime_minutes state"
    using staffing_keeps(3)[OF s] d2 by (simp add: timeliness_step productivity_step)
  have et: "equipment_status (update_downtime ?t h) = equipment_status ?t"
    by (simp add: downtime_step)
  show ?thesis
    unfolding u et unfolding update_downtime_def Let_def using dt by simp
qed

lemma equipment_status_change:
  assumes "valid_rng g" "0 \<le> equipment_change_cooldown state"
    and "update_equipment_status state h g = (state', g')"
  shows "0 \<le> equipment_change_cooldown state' \<and>
         (equipment_status state' = equipment_status state \<longrightarrow>
            equipment_change_cooldown state' = equipment_change_cooldown state)"
proof -
  have u: "0 \<le> g i" for i using assms(1) by (simp add: valid_rng_def)
  show ?thesis
    using assms(2,3) u[of 0] u[of "Suc 0"] u[of "Suc (Suc 0)"]
    by (auto simp: update_equipment_status_def Let_def random_random_def random_uniform_def
        split: if_splits)
qed

text \<open>
  Claim C3, as amended. The update first lowers the cooldown by the elapsed hours
  (floored at 0) and gates the equipment step on the lowered value. So the equipment
  status changes in one update only when the cooldown before the call minus the elapsed
  hours is at most 0; the cooldown after the call is never negative; and when the status
  did not change, the cooldown after the call is the cooldown before it less the elapsed
  hours, floored at 0.
\<close>

theorem cooldown_gates_equipment:
  assumes "valid_rng g" "update_facility_state state facility_type h g = (state', g')"
  shows "(equipment_status state' \<noteq> equipment_status state \<longrightarrow>
            equipment_change_cooldown state - h \<le> 0) \<and>
         0 \<le> equipment_change_cooldown state' \<and>
         (equipment_status state' = equipment_status state \<longrightarrow>
            equipment_change_cooldown state' = max 0 (equipment_change_cooldown state - h))"
proof -
  define s1 where "s1 = state\<lparr>equipment_change_cooldown :=
                            max 0 (equipment_change_cooldown state - h)\<rparr>"
  obtain s2 g2 where e: "(if equipment_change_cooldown s1 \<le> 0
            then update_equipment_status s1 h g else (s1, g)) = (s2, g2)"
    by (cases "if equipment_change_cooldown s1 \<le> 0
            then update_equipment_status s1 h g else (s1, g)") auto
  obtain s3 g3 where s: "update_staffing_level s2 facility_type h g2 = (s3, g3)"
    by (cases "update_staffing_level s2 facility_type h g2") auto
  have st': "state' = update_downtime (update_timeliness (update_productivity s3 facility_type h) facility_type h) h"
    using assms(2) unfolding update_facility_state_def Let_def s1_def[symmetric] e by (simp add: s)
  have eq3: "equipment_status state' = equipment_status s2"
    "equipment_change_cooldown state' = equipment_change_cooldown s2"
    unfolding st' using staffing_keeps(4,5)[OF s]
    by (simp_all add: downtime_step timeliness_step productivity_step)
  have s1f: "equipment_status s1 = equipment_status state"
    "equipment_change_cooldown s1 = max 0 (equipment_change_cooldown state - h)"
    by (simp_all add: s1_def)
  show ?thesis
  proof (cases "equipment_change_cooldown s1 \<le> 0")
    case True
    then have u: "update_equipment_status s1 h g = (s2, g2)" using e by simp
    have "0 \<le> equipment_change_cooldown s1" by (simp add: s1f)
    from equipment_status_change[OF assms(1) this u] True
    show ?thesis unfolding eq3 s1f by auto
  next
    case False
    then have "s2 = s1" using e by simp
    then show ?thesis unfolding eq3 using False s1f by auto
  qed
qed

theorem cooldown_gates_equipment_witness:
  "equipment_status (fst (update_facility_state cooling_state ''hub'' 10 (const_rng 0)))
     \<noteq> equipment_status cooling_state \<and>
   equipment_change_cooldown cooling_state - 10 \<le> 0 \<and>
   0 \<le> equipment_change_cooldown (fst (update_facility_state cooling_state ''hub'' 10 (const_rng 0)))"
proof -
  have v: "valid_rng (const_rng 0)" by (simp add: valid_rng_const)
  have c: "equipment_status (fst (update_facility_state cooling_state ''hub'' 10 (const_rng 0)))
     \<noteq> equipment_status cooling_state"
    unfolding update_facility_state_fields(1) by code_simp
  show ?thesis
    using cooldown_gates_equipment[OF v, of cooling_state "''hub''" 10
        "fst (update_facility_state cooling_state ''hub'' 10 (const_rng 0))"
        "snd (update_facility_state cooling_state ''hub'' 10 (const_rng 0))"] c
    by simp
qed

text \<open>
  Claim C3, as stated, fails: with five hours of cooldown left and ten hours elapsed, the
  status changes although the cooldown was positive before the call.
\<close>

theorem equipment_changes_under_positive_cooldown:
  "0 < equipment_change_cooldown cooling_state \<and>
   equipment_status cooling_state = ''Maintenance'' \<and>
   equipment_status (fst (update_facility_state cooling_state ''hub'' 10 (const_rng 0)))
     = ''Operational''"
  unfolding update_facility_state_fields(1) by code_simp

text \<open>
  Claim C4 against the code. \<^verbatim>\<open>_update_productivity\<close> and \<^verbatim>\<open>_update_timeliness\<close> apply the
  fractions \<open>0.1 \<times> h\<close> and \<open>0.2 \<times> h\<close> of the gap with no cap at 1, although their comments
  announce a gradual change toward the target. One update of an operational hub at optimal
  staffing after 20 hours (no equipment or staffing change is drawn): the productivity
  rate starts at 1.0 with target 0.95 and ends at 0.9, past the target, where the fraction
  \<open>min 1 (0.1 \<times> 20)\<close> gives 0.95; the delivery timeliness starts at 90 with target 86.4
  (read from the productivity just computed) and ends at 75.6, past the target, where the
  fraction \<open>min 1 (0.2 \<times> 20)\<close> gives 86.4.
\<close>

theorem relaxation_overshoots:
  "equipment_status (fst (update_facility_state steady_hub ''hub'' 20 (const_rng (1/2))))
     = equipment_status steady_hub \<and>
   staffing_level (fst (update_facility_state steady_hub ''hub'' 20 (const_rng (1/2))))
     = staffing_level steady_hub \<and>
   productivity_rate steady_hub = 1 \<and>
   target_productivity steady_hub ''hub'' = 0.95 \<and>
   productivity_rate (fst (update_facility_state steady_hub ''hub'' 20 (const_rng (1/2)))) = 0.9 \<and>
   max 0.1 (min 1.3 (productivity_rate steady_hub +
       (target_productivity steady_hub ''hub'' - productivity_rate steady_hub) * min 1 (0.1 * 20)))
     = 0.95 \<and>
   delivery_timeliness steady_hub = 90 \<and>
   target_timeliness (fst (update_facility_state steady_hub ''hub'' 20 (const_rng (1/2)))) ''hub''
     = 86.4 \<and>
   delivery_timeliness (fst (update_facility_state steady_hub ''hub'' 20 (const_rng (1/2))))
     = 75.6 \<and>
   max 60.0 (min 99.9 (delivery_timeliness steady_hub + (86.4 - delivery_timeliness steady_hub) *
       min 1 (0.2 * 20))) = 86.4"
proof -
  let ?s = "fst (update_facility_state steady_hub ''hub'' 20 (const_rng (1/2)))"
  have e: "equipment_status ?s = equipment_status steady_hub"
    unfolding update_facility_state_fields(1) by code_simp
  have n: "staffing_level ?s = staffing_level steady_hub"
    unfolding update_facility_state_fields(2) by code_simp
  have p: "productivity_rate ?s = 0.9"
    unfolding update_facility_state_fields(3) by code_simp
  have t: "delivery_timeliness ?s = 75.6"
    unfolding update_facility_state_fields(4) by code_simp
  have o: "equipment_status steady_hub = ''Operational''" by (simp add: steady_hub_def)
  have tt: "target_timeliness ?s ''hub'' = 86.4"
    unfolding target_timeliness_def Let_def p e o by (simp add: equipment_factor_def)
  have c: "productivity_rate steady_hub = 1" "target_productivity steady_hub ''hub'' = 0.95"
    "delivery_timeliness steady_hub = 90"
    by code_simp+
  have m: "max 0.1 (min 1.3 (productivity_rate steady_hub +
       (target_productivity steady_hub ''hub'' - productivity_rate steady_hub) * min 1 (0.1 * 20)))
     = 0.95"
    "max 60.0 (min 99.9 (delivery_timeliness steady_hub + (86.4 - delivery_timeliness steady_hub) *
       min 1 (0.2 * 20))) = 86.4"
    unfolding c by simp_all
  show ?thesis using e n p t tt c m by simp
qed

text \<open>
  Claim C8, as amended. With the equipment status read after the update's own equipment
  step: while Down, the downtime grows by the whole minutes \<^verbatim>\<open>int(hours_elapsed * 60)\<close>,
  capped at 480; while Operational it falls by the whole minutes
  \<^verbatim>\<open>int(hours_elapsed * 30)\<close>, floored at 0; under Maintenance, and any other status, it is
  unchanged. The whole minutes are the double-precision product truncated: a whole number
  between the floor and the ceiling of the exact product.
\<close>

theorem downtime_update:
  assumes "0 \<le> h" "update_facility_state state facility_type h g = (state', g')"
  shows "(equipment_status state' = ''Down'' \<longrightarrow>
            downtime_minutes state' = min 480 (downtime_minutes state + \<lfloor>fl (h * 60)\<rfloor>)) \<and>
         (equipment_status state' = ''Operational'' \<longrightarrow>
            downtime_minutes state' = max 0 (downtime_minutes state - \<lfloor>fl (h * 30)\<rfloor>)) \<and>
         (equipment_status state' \<noteq> ''Down'' \<and> equipment_status state' \<noteq> ''Operational'' \<longrightarrow>
            downtime_minutes state' = downtime_minutes state) \<and>
         (h * 60 < 2 ^ 53 \<longrightarrow>
            \<lfloor>h * 60\<rfloor> \<le> \<lfloor>fl (h * 60)\<rfloor> \<and> \<lfloor>fl (h * 60)\<rfloor> \<le> \<lceil>h * 60\<rceil> \<and>
            \<lfloor>h * 30\<rfloor> \<le> \<lfloor>fl (h * 30)\<rfloor> \<and> \<lfloor>fl (h * 30)\<rfloor> \<le> \<lceil>h * 30\<rceil>)"
proof -
  have st: "state' = fst (update_facility_state state facility_type h g)"
    using assms(2) by simp
  have f: "py_int (fl (h * 60)) = \<lfloor>fl (h * 60)\<rfloor>" "py_int (fl (h * 30)) = \<lfloor>fl (h * 30)\<rfloor>"
    using assms(1) by (simp_all add: py_int_floor fl_nonneg)
  have d: "downtime_minutes state' =
     (if equipment_status state' = ''Down''
      then min 480 (downtime_minutes state + \<lfloor>fl (h * 60)\<rfloor>)
      else if equipment_status state' = ''Operational''
      then max 0 (downtime_minutes state - \<lfloor>fl (h * 30)\<rfloor>)
      else downtime_minutes state)"
    unfolding st using update_facility_state_downtime[of state facility_type h g]
    unfolding f by simp
  have b: "h * 60 < 2 ^ 53 \<longrightarrow>
            \<lfloor>h * 60\<rfloor> \<le> \<lfloor>fl (h * 60)\<rfloor> \<and> \<lfloor>fl (h * 60)\<rfloor> \<le> \<lceil>h * 60\<rceil> \<and>
            \<lfloor>h * 30\<rfloor> \<le> \<lfloor>fl (h * 30)\<rfloor> \<and> \<lfloor>fl (h * 30)\<rfloor> \<le> \<lceil>h * 30\<rceil>"
  proof
    assume a: "h * 60 < 2 ^ 53"
    have "h * 30 \<le> h * 60" using assms(1) by simp
    then have a': "h * 30 < 2 ^ 53" using a by linarith
    have n: "0 \<le> h * 60" "0 \<le> h * 30" using assms(1) by simp_all
    show "\<lfloor>h * 60\<rfloor> \<le> \<lfloor>fl (h * 60)\<rfloor> \<and> \<lfloor>fl (h * 60)\<rfloor> \<le> \<lceil>h * 60\<rceil> \<and>
            \<lfloor>h * 30\<rfloor> \<le> \<lfloor>fl (h * 30)\<rfloor> \<and> \<lfloor>fl (h * 30)\<rfloor> \<le> \<lceil>h * 30\<rceil>"
      using floor_fl_between[OF n(1) a] floor_fl_between[OF n(2) a'] by simp
  qed
  show ?thesis using d b by simp
qed

theorem downtime_update_witness:
  "(0::real) \<le> 2308094809027379 / 1125899906842624 \<and>
   equipment_status (fst (update_facility_state down_state ''hub''
      (2308094809027379 / 1125899906842624) (const_rng (1/2)))) = ''Down'' \<and>
   downtime_minutes down_state = 0 \<and>
   downtime_minutes (fst (update_facility_state down_state ''hub''
      (2308094809027379 / 1125899906842624) (const_rng (1/2)))) = 122 \<and>
   (2308094809027379 / 1125899906842624 * 60 :: real) < 2 ^ 53 \<and>
   \<lfloor>2308094809027379 / 1125899906842624 * 60 :: real\<rfloor> \<le> 122 \<and>
   122 \<le> \<lceil>2308094809027379 / 1125899906842624 * 60 :: real\<rceil>"
proof -
  let ?h = "2308094809027379 / 1125899906842624 :: real"
  have h: "0 \<le> ?h" by simp
  have c: "equipment_status (fst (update_facility_state down_state ''hub'' ?h (const_rng (1/2))))
             = ''Down''"
    unfolding update_facility_state_fields(1) by code_simp
  have z: "downtime_minutes down_state = 0" by (simp add: down_state_def)
  have l: "?h * 60 < 2 ^ 53" by simp
  show ?thesis
    using downtime_update[OF h, of down_state "''hub''" "const_rng (1/2)"
        "fst (update_facility_state down_state ''hub'' ?h (const_rng (1/2)))"
        "snd (update_facility_state down_state ''hub'' ?h (const_rng (1/2)))"]
    unfolding c z minutes_7380 using l by simp
qed

text \<open>
  Claim C8, as stated, fails: after 1/128 of an hour while Down the downtime is still 0,
  where \<open>60 \<times> h\<close> is 15/32 of a minute.
\<close>

theorem downtime_truncates_minutes:
  "equipment_status down_state = ''Down'' \<and>
   equipment_status (fst (update_facility_state down_state ''hub'' (1/128) (const_rng (1/2))))
     = ''Down'' \<and>
   downtime_minutes down_state = 0 \<and>
   downtime_minutes (fst (update_facility_state down_state ''hub'' (1/128) (const_rng (1/2)))) = 0 \<and>
   min 480 (real_of_int (downtime_minutes down_state) + 60 * (1/128)) = 15/32"
proof -
  have c: "equipment_status (fst (update_facility_state down_state ''hub'' (1/128) (const_rng (1/2))))
             = ''Down''"
    unfolding update_facility_state_fields(1) by code_simp
  have z: "downtime_minutes down_state = 0" "equipment_status down_state = ''Down''"
    by (simp_all add: down_state_def)
  have d: "downtime_minutes (fst (update_facility_state down_state ''hub'' (1/128) (const_rng (1/2))))
             = 0"
    unfolding update_facility_state_downtime c z fl_small by (simp add: py_int_def)
  show ?thesis using c z d by simp
qed

section \<open>Unavailable metrics\<close>




section \<open>Bounded retry\<close>

lemma retry_step_returned:
  assumes "attempt < max_retries" "operation_func s = (Returned v, s')"
  shows "retry_loop operation_func max_retries base_delay attempt (s, g, naps) =
         (Returned (Some v), s', g, naps)"
  using assms by (subst retry_loop.simps) simp

lemma retry_step_locked:
  assumes "attempt + 1 < max_retries" "operation_func s = (Raised e, s')" "is_locked e"
  shows "retry_loop operation_func max_retries base_delay attempt (s, g, naps) =
         retry_loop operation_func max_retries base_delay (attempt + 1)
           (s', (\<lambda>i. g (Suc i)), naps @ [base_delay * 2 ^ attempt + 0.1 * g 0])"
  using assms
  by (subst retry_loop.simps)
     (auto simp: is_locked_def random_uniform_def random_random_def Let_def split: exn.splits)

lemma retry_step_raised:
  assumes "attempt < max_retries" "operation_func s = (Raised e, s')"
    and "\<not> is_locked e \<or> \<not> attempt + 1 < max_retries"
  shows "retry_loop operation_func max_retries base_delay attempt (s, g, naps) =
         (Raised e, s', g, naps)"
  using assms
  by (subst retry_loop.simps) (auto simp: is_locked_def split: exn.splits)

lemma counted_step:
  "operation_func s = (r, s') \<Longrightarrow> counted operation_func (s, n) = (r, (s', Suc n))"
  by (simp add: counted_def)

text \<open>
  Claim C6. With \<^verbatim>\<open>max_retries = 3\<close>: an operation that raises the transient
  storage-busy error on each of its three attempts is invoked exactly three times, two
  backoff delays are taken, and the third error propagates; one that raises the transient
  error once and then succeeds is invoked twice and its value is returned after exactly
  one delay, \<open>base_delay \<times> 2\<^sup>0\<close> plus the jitter; and an error that is not the transient
  one propagates after a single attempt, with no delay and no draw of jitter.
\<close>

theorem retry_bound:
  "(operation_func s0 = (Raised e0, s1) \<and> is_locked e0 \<and>
    operation_func s1 = (Raised e1, s2) \<and> is_locked e1 \<and>
    operation_func s2 = (Raised e2, s3) \<and> is_locked e2 \<longrightarrow>
      retry_db_operation (counted operation_func) 3 base_delay ((s0, 0), g, naps) =
        (Raised e2, (s3, 3), (\<lambda>i. g (Suc (Suc i))),
         naps @ [base_delay * 2 ^ 0 + 0.1 * g 0, base_delay * 2 ^ 1 + 0.1 * g 1])) \<and>
   (operation_func s0 = (Raised e0, s1) \<and> is_locked e0 \<and>
    operation_func s1 = (Returned v, s2) \<longrightarrow>
      retry_db_operation (counted operation_func) 3 base_delay ((s0, 0), g, naps) =
        (Returned (Some v), (s2, 2), (\<lambda>i. g (Suc i)),
         naps @ [base_delay * 2 ^ 0 + 0.1 * g 0])) \<and>
   (operation_func s0 = (Raised e, s1) \<and> \<not> is_locked e \<longrightarrow>
      retry_db_operation (counted operation_func) 3 base_delay ((s0, 0), g, naps) =
        (Raised e, (s1, 1), g, naps))"
proof (intro conjI impI)
  assume a: "operation_func s0 = (Raised e0, s1) \<and> is_locked e0 \<and>
    operation_func s1 = (Raised e1, s2) \<and> is_locked e1 \<and>
    operation_func s2 = (Raised e2, s3) \<and> is_locked e2"
  have c0: "counted operation_func (s0, 0) = (Raised e0, (s1, Suc 0))"
    and c1: "counted operation_func (s1, Suc 0) = (Raised e1, (s2, Suc (Suc 0)))"
    and c2: "counted operation_func (s2, Suc (Suc 0)) = (Raised e2, (s3, 3))"
    using a by (simp_all add: counted_step numeral_3_eq_3)
  have "retry_loop (counted operation_func) 3 base_delay 0 ((s0, 0), g, naps) =
        retry_loop (counted operation_func) 3 base_delay (0 + 1)
          ((s1, Suc 0), (\<lambda>i. g (Suc i)), naps @ [base_delay * 2 ^ 0 + 0.1 * g 0])"
    by (rule retry_step_locked[where operation_func = "counted operation_func"
          and s = "(s0, 0)" and e = e0 and s' = "(s1, Suc 0)"]) (use a c0 in simp_all)
  also have "\<dots> = retry_loop (counted operation_func) 3 base_delay (0 + 1 + 1)
          ((s2, Suc (Suc 0)), (\<lambda>i. g (Suc (Suc i))),
           (naps @ [base_delay * 2 ^ 0 + 0.1 * g 0]) @ [base_delay * 2 ^ (0 + 1) + 0.1 * g (Suc 0)])"
    by (rule retry_step_locked[where operation_func = "counted operation_func"
          and s = "(s1, Suc 0)" and e = e1 and s' = "(s2, Suc (Suc 0))"]) (use a c1 in simp_all)
  also have "\<dots> = (Raised e2, (s3, 3), (\<lambda>i. g (Suc (Suc i))),
           (naps @ [base_delay * 2 ^ 0 + 0.1 * g 0]) @ [base_delay * 2 ^ (0 + 1) + 0.1 * g (Suc 0)])"
    by (rule retry_step_raised[where operation_func = "counted operation_func"
          and s = "(s2, Suc (Suc 0))" and e = e2 and s' = "(s3, 3)"]) (use c2 in simp_all)
  finally show "retry_db_operation (counted operation_func) 3 base_delay ((s0, 0), g, naps) =
        (Raised e2, (s3, 3), (\<lambda>i. g (Suc (Suc i))),
         naps @ [base_delay * 2 ^ 0 + 0.1 * g 0, base_delay * 2 ^ 1 + 0.1 * g 1])"
    by (simp add: retry_db_operation_def)
next
  assume a: "operation_func s0 = (Raised e0, s1) \<and> is_locked e0 \<and>
    operation_func s1 = (Returned v, s2)"
  have c0: "counted operation_func (s0, 0) = (Raised e0, (s1, Suc 0))"
    and c1: "counted operation_func (s1, Suc 0) = (Returned v, (s2, 2))"
    using a by (simp_all add: counted_step numeral_2_eq_2)
  have "retry_loop (counted operation_func) 3 base_delay 0 ((s0, 0), g, naps) =
        retry_loop (counted operation_func) 3 base_delay (0 + 1)
          ((s1, Suc 0), (\<lambda>i. g (Suc i)), naps @ [base_delay * 2 ^ 0 + 0.1 * g 0])"
    by (rule retry_step_locked[where operation_func = "counted operation_func"
          and s = "(s0, 0)" and e = e0 and s' = "(s1, Suc 0)"]) (use a c0 in simp_all)
  also have "\<dots> = (Returned (Some v), (s2, 2), (\<lambda>i. g (Suc i)),
           naps @ [base_delay * 2 ^ 0 + 0.1 * g 0])"
    by (rule retry_step_returned[where operation_func = "counted operation_func"
          and s = "(s1, Suc 0)" and s' = "(s2, 2)"]) (use c1 in simp_all)
  finally show "retry_db_operation (counted operation_func) 3 base_delay ((s0, 0), g, naps) =
        (Returned (Some v), (s2, 2), (\<lambda>i. g (Suc i)),
         naps @ [base_delay * 2 ^ 0 + 0.1 * g 0])"
    by (simp add: retry_db_operation_def)
next
  assume a: "operation_func s0 = (Raised e, s1) \<and> \<not> is_locked e"
  have c0: "counted operation_func (s0, 0) = (Raised e, (s1, 1))"
    using a by (simp add: counted_step)
  show "retry_db_operation (counted operation_func) 3 base_delay ((s0, 0), g, naps) =
        (Raised e, (s1, 1), g, naps)"
    unfolding retry_db_operation_def
    by (rule retry_step_raised[where operation_func = "counted operation_func"
          and s = "(s0, 0)" and e = e and s' = "(s1, 1)"]) (use a c0 in simp_all)
qed

theorem retry_bound_witness:
  "retry_db_operation (counted scripted) 3 0.1
      (([busy, busy, busy, Returned ()], 0), const_rng (1/2), []) =
     (Raised (OperationalError ''database is locked''), ([Returned ()], 3),
      (\<lambda>i. const_rng (1/2) (Suc (Suc i))), [0.15, 0.25]) \<and>
   retry_db_operation (counted scripted) 3 0.1
      (([busy, Returned ()], 0), const_rng (1/2), []) =
     (Returned (Some ()), ([], 2), (\<lambda>i. const_rng (1/2) (Suc i)), [0.15]) \<and>
   retry_db_operation (counted scripted) 3 0.1
      (([disk_error, Returned ()], 0), const_rng (1/2), []) =
     (Raised (OperationalError ''disk I/O error''), ([Returned ()], 1), const_rng (1/2), [])"
proof -
  have l: "is_locked (OperationalError ''database is locked'')"
    and n: "\<not> is_locked (OperationalError ''disk I/O error'')"
    by code_simp+
  have s: "scripted [busy, busy, busy, Returned ()] =
             (Raised (OperationalError ''database is locked''), [busy, busy, Returned ()])"
    "scripted [busy, busy, Returned ()] =
             (Raised (OperationalError ''database is locked''), [busy, Returned ()])"
    "scripted [busy, Returned ()] =
             (Raised (OperationalError ''database is locked''), [Returned ()])"
    "scripted [Returned ()] = (Returned (), [])"
    "scripted [disk_error, Returned ()] =
             (Raised (OperationalError ''disk I/O error''), [Returned ()])"
    by (simp_all add: scripted_def busy_def disk_error_def)
  have a: "retry_db_operation (counted scripted) 3 0.1
      (([busy, busy, busy, Returned ()], 0), const_rng (1/2), []) =
     (Raised (OperationalError ''database is locked''), ([Returned ()], 3),
      (\<lambda>i. const_rng (1/2) (Suc (Suc i))), [0.15, 0.25])"
    using retry_bound[of scripted "[busy, busy, busy, Returned ()]"
        "OperationalError ''database is locked''" "[busy, busy, Returned ()]"
        "OperationalError ''database is locked''" "[busy, Returned ()]"
        "OperationalError ''database is locked''" "[Returned ()]" "0.1" "const_rng (1/2)" "[]"]
      l s
    by (simp add: const_rng_def)
  have b: "retry_db_operation (counted scripted) 3 0.1
      (([busy, Returned ()], 0), const_rng (1/2), []) =
     (Returned (Some ()), ([], 2), (\<lambda>i. const_rng (1/2) (Suc i)), [0.15])"
    using retry_bound[where operation_func = scripted and ?s0.0 = "[busy, Returned ()]"
        and ?e0.0 = "OperationalError ''database is locked''" and ?s1.0 = "[Returned ()]"
        and v = "()" and ?s2.0 = "[]" and base_delay = "0.1" and g = "const_rng (1/2)"
        and naps = "[]"]
      l s
    by (simp add: const_rng_def)
  have c: "retry_db_operation (counted scripted) 3 0.1
      (([disk_error, Returned ()], 0), const_rng (1/2), []) =
     (Raised (OperationalError ''disk I/O error''), ([Returned ()], 1), const_rng (1/2), [])"
    using retry_bound[where operation_func = scripted and ?s0.0 = "[disk_error, Returned ()]"
        and e = "OperationalError ''disk I/O error''" and ?s1.0 = "[Returned ()]"
        and base_delay = "0.1" and g = "const_rng (1/2)" and naps = "[]"]
      n s
    by simp
  show ?thesis using a b c by blast
qed

section \<open>Batch insert and its fallback\<close>

lemma retry_loop_exhausted:
  assumes "\<not> attempt < max_retries"
  shows "retry_loop operation_func max_retries base_delay attempt (s, g, naps) =
         (Returned None, s, g, naps)"
  using assms by (subst retry_loop.simps) simp

lemma retry_loop_insert_calls:
  assumes op: "\<And>s. insert_calls (snd (operation_func s)) = insert_calls s"
  shows "insert_calls (fst (snd (retry_loop operation_func max_retries base_delay attempt
            (s, g, naps)))) = insert_calls s"
proof (induction "max_retries - attempt" arbitrary: attempt s g naps)
  case 0
  then have "\<not> attempt < max_retries" by simp
  then show ?case by (simp add: retry_loop_exhausted)
next
  case (Suc n)
  then have lt: "attempt < max_retries" by simp
  obtain r s' where o: "operation_func s = (r, s')"
    by (cases "operation_func s") auto
  have keep: "insert_calls s' = insert_calls s"
    using op[of s] o by simp
  show ?case
  proof (cases r)
    case (Returned v)
    then show ?thesis
      using retry_step_returned[OF lt, of operation_func s v s' base_delay g naps] o keep
      by simp
  next
    case (Raised e)
    show ?thesis
    proof (cases "is_locked e \<and> attempt + 1 < max_retries")
      case True
      have n: "n = max_retries - (attempt + 1)" using Suc.hyps(2) by simp
      have "retry_loop operation_func max_retries base_delay attempt (s, g, naps) =
            retry_loop operation_func max_retries base_delay (attempt + 1)
              (s', (\<lambda>i. g (Suc i)), naps @ [base_delay * 2 ^ attempt + 0.1 * g 0])"
        by (rule retry_step_locked[where e = e]) (use True o Raised in simp_all)
      then show ?thesis
        using Suc.hyps(1)[OF n, of s'] keep by simp
    next
      case False
      have "retry_loop operation_func max_retries base_delay attempt (s, g, naps) =
            (Raised e, s', g, naps)"
        by (rule retry_step_raised[where e = e]) (use False lt o Raised in auto)
      then show ?thesis using keep by simp
    qed
  qed
qed

lemma batch_insert_calls: "insert_calls (snd (batch_insert metrics_list s)) = insert_calls s"
  by (simp add: batch_insert_def split: list.splits option.splits)

lemma batch_insert_metrics_calls:
  "insert_calls (fst (snd (batch_insert_metrics metrics_list (s, g, naps)))) = insert_calls s"
  unfolding batch_insert_metrics_def retry_db_operation_def
  by (rule retry_loop_insert_calls) (rule batch_insert_calls)

lemma insert_metrics_calls:
  "insert_calls (fst (snd (insert_metrics metrics (s, g, naps)))) = insert_calls s @ [metrics]"
proof -
  have "insert_calls (fst (snd (retry_loop (insert_one metrics) 3 0.1 0
          (s\<lparr>insert_calls := insert_calls s @ [metrics]\<rparr>, g, naps)))) =
        insert_calls (s\<lparr>insert_calls := insert_calls s @ [metrics]\<rparr>)"
    by (rule retry_loop_insert_calls) (simp add: insert_one_def batch_insert_calls)
  then show ?thesis
    by (simp add: insert_metrics_def retry_db_operation_def)
qed

lemma insert_individually_calls:
  "insert_calls (fst (insert_individually metrics_batch (s, g, naps))) =
   insert_calls s @ metrics_batch"
proof (induction metrics_batch arbitrary: s g naps)
  case Nil
  then show ?case by simp
next
  case (Cons m ms)
  obtain r s' g' naps' where i: "insert_metrics m (s, g, naps) = (r, s', g', naps')"
    by (cases "insert_metrics m (s, g, naps)") auto
  have "insert_calls s' = insert_calls s @ [m]"
    using insert_metrics_calls[of m s g naps] i by simp
  then show ?case using Cons.IH[of s' g' naps'] i by simp
qed

text \<open>
  Claim C7. If the single-transaction batch insert of a batch of \<open>n\<close> samples fails
  (after its retries), then exactly \<open>n\<close> calls of the individual insert follow, one per
  sample and in batch order, whatever the storage does to each of them: a failing
  individual insert does not stop the remaining ones.
\<close>

theorem batch_fallback:
  assumes "batch_insert_metrics metrics_batch (s, g, naps) = (Raised e, s1, g1, naps1)"
  shows "insert_calls (fst (store_batch metrics_batch (s, g, naps))) =
           insert_calls s @ metrics_batch \<and>
         length (insert_calls (fst (store_batch metrics_batch (s, g, naps)))) =
           length (insert_calls s) + length metrics_batch"
proof -
  have k: "insert_calls s1 = insert_calls s"
    using batch_insert_metrics_calls[of metrics_batch s g naps] assms by simp
  have "insert_calls (fst (store_batch metrics_batch (s, g, naps))) =
           insert_calls s @ metrics_batch"
  proof (cases "metrics_batch = []")
    case True
    then show ?thesis by (simp add: store_batch_def)
  next
    case False
    then have "store_batch metrics_batch (s, g, naps) =
               insert_individually metrics_batch (s1, g1, naps1)"
      using assms by (simp add: store_batch_def)
    then show ?thesis using insert_individually_calls[of metrics_batch s1 g1 naps1] k by simp
  qed
  then show ?thesis by simp
qed

theorem batch_fallback_witness:
  "fst (batch_insert_metrics [sample 1, sample 2, sample 3] (faulty_sink, const_rng (1/2), []))
     = Raised (OtherError ''constraint failed'') \<and>
   insert_calls (fst (store_batch [sample 1, sample 2, sample 3]
      (faulty_sink, const_rng (1/2), []))) = [sample 1, sample 2, sample 3] \<and>
   metrics_rows (fst (store_batch [sample 1, sample 2, sample 3]
      (faulty_sink, const_rng (1/2), []))) = [sample 2, sample 3]"
proof -
  have f: "fst (batch_insert_metrics [sample 1, sample 2, sample 3]
             (faulty_sink, const_rng (1/2), [])) = Raised (OtherError ''constraint failed'')"
    by code_simp
  have r: "metrics_rows (fst (store_batch [sample 1, sample 2, sample 3]
      (faulty_sink, const_rng (1/2), []))) = [sample 2, sample 3]"
    by code_simp
  obtain s1 g1 naps1 where
    b: "batch_insert_metrics [sample 1, sample 2, sample 3] (faulty_sink, const_rng (1/2), [])
          = (Raised (OtherError ''constraint failed''), s1, g1, naps1)"
    using f by (metis prod.collapse)
  have "insert_calls faulty_sink = []"
    by (simp add: faulty_sink_def empty_sink_def)
  then show ?thesis
    using batch_fallback[OF b] f r by simp
qed

section \<open>Alert deduplication\<close>

lemma check_existing_recent:
  "check_existing_alert facility_id alert_type 1 now alerts =
     (recent_unresolved now facility_id alert_type alerts \<noteq> [])"
  by (simp add: check_existing_alert_def recent_unresolved_def)

lemma recent_insert:
  "recent_unresolved now fid t (insert_alert fid' t' msg sev now alerts) =
     recent_unresolved now fid t alerts @
       (if fid' = fid \<and> t' = t
        then [\<lparr>a_facility_id = fid', a_alert_type = t', a_message = msg,
                a_severity = sev, a_resolved = False, a_created_at = now\<rparr>]
        else [])"
  by (simp add: recent_unresolved_def insert_alert_def)

lemma guarded_insert_count:
  "length (recent_unresolved now fid t
       (if \<not> check_existing_alert fid' t' 1 now alerts
        then insert_alert fid' t' msg sev now alerts else alerts))
     \<le> max 1 (length (recent_unresolved now fid t alerts))"
proof (cases "check_existing_alert fid' t' 1 now alerts")
  case True
  then show ?thesis by simp
next
  case False
  then have e: "recent_unresolved now fid' t' alerts = []"
    by (simp add: check_existing_recent)
  show ?thesis
  proof (cases "fid' = fid \<and> t' = t")
    case True
    then show ?thesis using False e by (simp add: recent_insert)
  next
    case False
    then show ?thesis by (auto simp: recent_insert)
  qed
qed

lemma resolve_count:
  "length (recent_unresolved now fid t (resolve_equipment_alerts_for_facility fid' alerts))
     \<le> length (recent_unresolved now fid t alerts)"
  unfolding recent_unresolved_def resolve_equipment_alerts_for_facility_def
  by (induction alerts) auto

lemma max1_trans:
  fixes x y z :: nat
  assumes "x \<le> max 1 y" "y \<le> max 1 z"
  shows "x \<le> max 1 z"
  using assms by auto

lemma productivity_alert_count:
  "length (recent_unresolved now fid t (productivity_alert now facility alerts))
     \<le> max 1 (length (recent_unresolved now fid t alerts))"
proof (cases "f_productivity_rate facility")
  case None
  then show ?thesis by (simp add: productivity_alert_def)
next
  case (Some rate)
  show ?thesis
  proof (cases "rate < 0.7")
    case True
    then show ?thesis
      using Some guarded_insert_count[of now fid t "f_id facility" "''low_productivity''" alerts]
      by (simp add: productivity_alert_def)
  next
    case False
    then show ?thesis using Some by (simp add: productivity_alert_def)
  qed
qed

lemma equipment_alert_count:
  "length (recent_unresolved now fid t (equipment_alert now facility alerts))
     \<le> max 1 (length (recent_unresolved now fid t alerts))"
proof -
  have r: "length (recent_unresolved now fid t
             (resolve_equipment_alerts_for_facility (f_id facility) alerts))
           \<le> max 1 (length (recent_unresolved now fid t alerts))"
    using resolve_count[of now fid t "f_id facility" alerts] by simp
  show ?thesis
    unfolding equipment_alert_def Let_def
    using guarded_insert_count[of now fid t "f_id facility" "''equipment_down''" alerts]
      guarded_insert_count[of now fid t "f_id facility" "''equipment_maintenance''" alerts] r
    by (simp split: if_splits)
qed

lemma capacity_alert_count:
  assumes "capacity_alert now facility alerts = Inr alerts'"
  shows "length (recent_unresolved now fid t alerts')
     \<le> max 1 (length (recent_unresolved now fid t alerts))"
  using assms guarded_insert_count[of now fid t "f_id facility" "''high_capacity''" alerts]
  by (auto simp: capacity_alert_def split: if_splits sum.splits)

lemma sync_alert_count:
  "length (recent_unresolved now fid t (sync_alert now facility alerts))
     \<le> max 1 (length (recent_unresolved now fid t alerts))"
proof -
  define alerts1 where "alerts1 =
            (if f_equipment_status facility = Some ''Down'' then
               (if \<not> check_existing_alert (f_id facility) ''equipment_down'' 1 now alerts
                then insert_alert (f_id facility) ''equipment_down''
                       (EquipmentDownAt (f_name facility)) ''critical'' now alerts
                else alerts)
             else if f_equipment_status facility = Some ''Maintenance'' then
               (if \<not> check_existing_alert (f_id facility) ''equipment_maintenance'' 1 now alerts
                then insert_alert (f_id facility) ''equipment_maintenance''
                       (EquipmentMaintenanceAt (f_name facility)) ''warning'' now alerts
                else alerts)
             else if f_equipment_status facility = Some ''Operational'' then
               resolve_equipment_alerts_for_facility (f_id facility) alerts
             else alerts)"
  have r: "length (recent_unresolved now fid t
             (resolve_equipment_alerts_for_facility (f_id facility) alerts))
           \<le> max 1 (length (recent_unresolved now fid t alerts))"
    using resolve_count[of now fid t "f_id facility" alerts] by simp
  have a1: "length (recent_unresolved now fid t alerts1)
     \<le> max 1 (length (recent_unresolved now fid t alerts))"
    unfolding alerts1_def
    using guarded_insert_count[of now fid t "f_id facility" "''equipment_down''" alerts]
      guarded_insert_count[of now fid t "f_id facility" "''equipment_maintenance''" alerts] r
    by (simp split: if_splits)
  have s: "sync_alert now facility alerts =
      (case f_productivity_rate facility of
        None \<Rightarrow> alerts1
      | Some rate \<Rightarrow>
          if rate < 0.7 then
            (if \<not> check_existing_alert (f_id facility) ''low_productivity'' 1 now alerts1
             then insert_alert (f_id facility) ''low_productivity''
                    (ProductivityAt (f_name facility) rate) ''warning'' now alerts1
             else alerts1)
          else alerts1)"
    by (simp only: sync_alert_def Let_def alerts1_def)
  have a2: "length (recent_unresolved now fid t (sync_alert now facility alerts))
     \<le> max 1 (length (recent_unresolved now fid t alerts1))"
    unfolding s
    using guarded_insert_count[of now fid t "f_id facility" "''low_productivity''" alerts1]
    by (simp split: option.splits)
  show ?thesis by (rule max1_trans[OF a2 a1])
qed

lemma check_productivity_alerts_count:
  "length (recent_unresolved now fid t (check_productivity_alerts now facilities alerts))
     \<le> max 1 (length (recent_unresolved now fid t alerts))"
proof (induction facilities arbitrary: alerts)
  case Nil
  then show ?case by simp
next
  case (Cons facility facilities)
  show ?case
    using max1_trans[OF Cons.IH[of "productivity_alert now facility alerts"]
        productivity_alert_count[of now fid t facility alerts]]
    by simp
qed

lemma check_equipment_alerts_count:
  "length (recent_unresolved now fid t (check_equipment_alerts now facilities alerts))
     \<le> max 1 (length (recent_unresolved now fid t alerts))"
proof (induction facilities arbitrary: alerts)
  case Nil
  then show ?case by simp
next
  case (Cons facility facilities)
  show ?case
    using max1_trans[OF Cons.IH[of "equipment_alert now facility alerts"]
        equipment_alert_count[of now fid t facility alerts]]
    by simp
qed

lemma check_capacity_alerts_count:
  "length (recent_unresolved now fid t (fst (check_capacity_alerts now facilities alerts)))
     \<le> max 1 (length (recent_unresolved now fid t alerts))"
proof (induction facilities arbitrary: alerts)
  case Nil
  then show ?case by simp
next
  case (Cons facility facilities)
  show ?case
  proof (cases "capacity_alert now facility alerts")
    case (Inl err)
    then show ?thesis by simp
  next
    case (Inr alerts')
    show ?thesis
      using max1_trans[OF Cons.IH[of alerts'] capacity_alert_count[OF Inr, where fid = fid and t = t]] Inr
      by simp
  qed
qed

lemma sync_alerts_count:
  "length (recent_unresolved now fid t (sync_alerts_with_current_data now facilities alerts))
     \<le> max 1 (length (recent_unresolved now fid t alerts))"
proof (induction facilities arbitrary: alerts)
  case Nil
  then show ?case by simp
next
  case (Cons facility facilities)
  show ?case
    using max1_trans[OF Cons.IH[of "sync_alert now facility alerts"]
        sync_alert_count[of now fid t facility alerts]]
    by simp
qed

text \<open>
  Claim C1, as amended. The existence check that guards every alert-opening path (the
  periodic checks and the startup sync) only sees unresolved alerts created within the
  last hour. So for every facility and alert type, a pass never raises the number of
  unresolved alerts created within the last hour above one: where such an alert exists no
  further one is opened, and where none exists at most one is opened. An unresolved alert
  older than one hour does not prevent a new one.
\<close>

theorem alert_dedup_within_hour:
  "length (recent_unresolved now facility_id alert_type (check_for_alerts now facilities alerts))
     \<le> max 1 (length (recent_unresolved now facility_id alert_type alerts)) \<and>
   length (recent_unresolved now facility_id alert_type
             (sync_alerts_with_current_data now facilities alerts))
     \<le> max 1 (length (recent_unresolved now facility_id alert_type alerts))"
proof -
  have "length (recent_unresolved now facility_id alert_type (check_for_alerts now facilities alerts))
     \<le> max 1 (length (recent_unresolved now facility_id alert_type alerts))"
    unfolding check_for_alerts_def
    by (rule max1_trans[OF check_capacity_alerts_count
          max1_trans[OF check_equipment_alerts_count check_productivity_alerts_count]])
  then show ?thesis using sync_alerts_count by simp
qed

text \<open>
  Claim C1, as stated, fails: with an unresolved equipment-down alert created two hours
  ago, a pass over a facility that is still down opens a second one.
\<close>

theorem duplicate_after_an_hour:
  "unresolved_alerts 1 ''equipment_down'' [old_down_alert] = [old_down_alert] \<and>
   length (unresolved_alerts 1 ''equipment_down''
      (check_for_alerts 7200 [facility_row 1 (Some ''Down'') 500 1000] [old_down_alert])) = 2 \<and>
   length (unresolved_alerts 1 ''equipment_down''
      (sync_alerts_with_current_data 7200 [facility_row 1 (Some ''Down'') 500 1000]
         [old_down_alert])) = 2"
  by code_simp

section \<open>The guard of the capacity check\<close>








section \<open>Resolution of equipment alerts\<close>




















end
